theory Spec2Isabelle
  imports Main "HOL-Library.Word"
begin

section \<open>Values of the crawl engine\<close>

text \<open>
  Go \<open>error\<close> values are kept as their messages. A Go function returning
  \<open>(value, error)\<close> is a sum with \<open>Inl\<close> for the error, except where the source
  returns both a value and an error; a run-time panic (a nil dereference) is the
  outcome \<open>Panics\<close>.
\<close>

type_synonym error = string

datatype 'a outcome = Returns 'a | Panics

text \<open>
  \<open>frontier.Item\<close>. The struct is declared in package \<open>frontier\<close>; its fields are the ones
  the crawl package reads and writes (\<open>URL\<close>, \<open>ParentItem\<close>, \<open>Type\<close>, \<open>Hop\<close>,
  \<open>Redirect\<close>, \<open>Hash\<close>). \<open>URL\<close> and \<open>ParentItem\<close> are pointers and may be nil.
  \<open>Hop\<close> is a \<open>uint8\<close> (it is assigned from \<open>kafkaMessage.HopsCount\<close>); the redirect
  counter is an unsigned integer, only ever incremented below \<open>MaxRedirect\<close>.
  The type \<open>'u\<close> stands for \<open>url.URL\<close>.
\<close>

datatype 'u Item =
  Item (URL: "'u option") (ParentItem: "'u Item option") (Type: string)
       (Hop: "8 word") (Redirect: nat) (Hash: "64 word")

text \<open>\<open>new(frontier.Item)\<close>: every field has its zero value.\<close>

definition zeroItem :: "'u Item" where
  "zeroItem = Item None None [] 0 0 0"

text \<open>The assignment \<open>item.Redirect = r\<close>.\<close>

definition set_Redirect :: "'u Item \<Rightarrow> nat \<Rightarrow> 'u Item" where
  "set_Redirect it r = Item (URL it) (ParentItem it) (Type it) (Hop it) r (Hash it)"

subsection \<open>HTTP headers, requests and responses\<close>

text \<open>
  \<open>http.Header\<close> with \<open>Get\<close> and \<open>Set\<close>. Go stores every key in canonical form,
  so that lookup does not depend on the case of the key; here the normal form of
  a key is its lower-case spelling. \<open>Get\<close> of a missing key is the empty string.
\<close>

definition asciiLower :: "char \<Rightarrow> char" where
  "asciiLower ch =
     (case map_of (zip ''ABCDEFGHIJKLMNOPQRSTUVWXYZ'' ''abcdefghijklmnopqrstuvwxyz'') ch of
        None \<Rightarrow> ch
      | Some l \<Rightarrow> l)"

type_synonym Header = "(string \<times> string) list"

definition Header_Get :: "Header \<Rightarrow> string \<Rightarrow> string" where
  "Header_Get h key =
     (case map_of (map (\<lambda>kv. (map asciiLower (fst kv), snd kv)) h) (map asciiLower key) of
        None \<Rightarrow> []
      | Some v \<Rightarrow> v)"

definition Header_Set :: "Header \<Rightarrow> string \<Rightarrow> string \<Rightarrow> Header" where
  "Header_Set h key v =
     (map asciiLower key, v) #
     filter (\<lambda>kv. map asciiLower (fst kv) \<noteq> map asciiLower key) h"

record 'u Request =
  req_Method :: string
  req_URL :: 'u
  req_Header :: Header

record 'u Response =
  resp_StatusCode :: int
  resp_Header :: Header
  resp_Request :: "'u Request"

text \<open>
  One call of \<open>Client.Do\<close> or \<open>ClientProxied.Do\<close>: the item it was made for, the
  client used, and the request sent. The list of the calls made so far is the
  state the model threads through; a transport answers a request knowing that
  list, so a server may answer the same request differently each time.
\<close>

record 'u fetch =
  fetch_item :: "'u Item"
  fetch_proxied :: bool
  fetch_req :: "'u Request"

type_synonym 'u transport = "'u fetch list \<Rightarrow> 'u Request \<Rightarrow> error + 'u Response"

subsection \<open>The crawl aggregate and what it calls\<close>

text \<open>The fields of \<open>Crawl\<close> that the capture path and the Kafka bridge read.\<close>

record 'u Crawl =
  Client :: "'u transport"
  ClientProxied :: "'u transport option"
  BypassProxy :: "string list"
  UserAgent :: string
  MaxRedirect :: nat
  MaxHops :: "8 word"
  Seencheck :: bool
  Workers :: int

text \<open>The Kafka record of \<open>kafka.go\<close>, with its JSON fields \<open>u\<close>, \<open>hop\<close>, \<open>parent_url\<close>.\<close>

record kafkaMessage =
  msg_URL :: string
  msg_HopsCount :: "8 word"
  msg_ParentURL :: string

type_synonym cookie = "string \<times> string"

text \<open>
  What the crawl package calls and does not define. They are parameters: every
  theorem holds for any implementation of them.
  \<^item> package \<open>net/url\<close>: \<open>url.Parse\<close>, \<open>(*url.URL).String\<close> and the \<open>Host\<close> field;
  \<^item> the helpers \<open>isRedirection\<close> and \<open>utils.StringContainsSliceElements\<close>, and the
    hash of a URL that \<open>frontier.NewItem\<close> stores;
  \<^item> the HTML side: \<open>goquery.NewDocumentFromResponse\<close>, \<open>extractOutlinks\<close>,
    \<open>extractAssets\<close> (the type \<open>'d\<close> stands for the parsed document) and
    \<open>(*http.Response).Cookies\<close>, which reads the cookies a response sets from its header;
  \<^item> package \<open>encoding/json\<close>: \<open>json.Marshal\<close> returns bytes and an error;
    \<open>json.Unmarshal\<close> into the pointer \<open>newKafkaMessage\<close> fails, or leaves the pointer
    nil (the JSON literal \<open>null\<close>), or fills the record.
\<close>

record ('u, 'd) env =
  url_Parse :: "string \<Rightarrow> error + 'u"
  url_String :: "'u \<Rightarrow> string"
  url_Host :: "'u \<Rightarrow> string"
  isRedirection :: "int \<Rightarrow> bool"
  StringContainsSliceElements :: "string \<Rightarrow> string list \<Rightarrow> bool"
  hashURL :: "'u \<Rightarrow> 64 word"
  NewDocumentFromResponse :: "'u Response \<Rightarrow> error + 'd"
  extractOutlinks :: "'u \<Rightarrow> 'd \<Rightarrow> error + 'u list"
  extractAssets :: "'u \<Rightarrow> 'd \<Rightarrow> error + 'u list"
  resp_Cookies :: "Header \<Rightarrow> cookie list"
  json_Marshal :: "kafkaMessage \<Rightarrow> string \<times> error option"
  json_Unmarshal :: "string \<Rightarrow> error + kafkaMessage option"

text \<open>
  Modelled from the spec: \<open>frontier.NewItem(URL, parentItem, itemType, hop)\<close>, which is
  defined in package \<open>frontier\<close>. It builds an Item with the given URL, parent, type and
  hop, a redirect chain of length 0 and the deterministic 64-bit hash of the URL.
\<close>

definition NewItem :: "('u, 'd) env \<Rightarrow> 'u \<Rightarrow> 'u Item option \<Rightarrow> string \<Rightarrow> 8 word \<Rightarrow> 'u Item" where
  "NewItem env u parentItem itemType hop =
     Item (Some u) parentItem itemType hop 0 (hashURL env u)"

text \<open>
  \<open>http.NewRequest(method, urlStr, nil)\<close>: the URL string is parsed again, and the
  request starts with an empty header.
\<close>

definition http_NewRequest :: "('u, 'd) env \<Rightarrow> string \<Rightarrow> string \<Rightarrow> error + 'u Request" where
  "http_NewRequest env method urlStr =
     (case url_Parse env urlStr of
        Inl err \<Rightarrow> Inl err
      | Inr u \<Rightarrow> Inr \<lparr>req_Method = method, req_URL = u, req_Header = []\<rparr>)"

section \<open>The redirect follower\<close>

text \<open>
  \<open>executeGET\<close> returns Go's pair \<open>(resp, err)\<close>, the request object \<open>req\<close> as the call
  leaves it (the source writes headers into it), and the extended list of fetches.
  \<open>viaProxy\<close> is the negation of the test at line 23, \<open>clientDo\<close> the client that the
  test selects. The \<open>Referer\<close> at line 57 is read through \<open>newItem.ParentItem\<close>, which
  is \<open>parentItem\<close>; its \<open>URL\<close> may be nil, and then \<open>String()\<close> panics.
\<close>

type_synonym 'u result = "'u Response option \<times> error option"

definition viaProxy :: "'u Crawl \<Rightarrow> ('u, 'd) env \<Rightarrow> 'u Request \<Rightarrow> bool" where
  "viaProxy c env req =
     (case ClientProxied c of
        None \<Rightarrow> False
      | Some _ \<Rightarrow> \<not> StringContainsSliceElements env (url_Host env (req_URL req)) (BypassProxy c))"

definition clientDo :: "'u Crawl \<Rightarrow> bool \<Rightarrow> 'u transport" where
  "clientDo c proxied =
     (if proxied then (case ClientProxied c of None \<Rightarrow> Client c | Some p \<Rightarrow> p) else Client c)"

function executeGET ::
  "'u Crawl \<Rightarrow> ('u, 'd) env \<Rightarrow> 'u Item \<Rightarrow> 'u Request \<Rightarrow> 'u fetch list
     \<Rightarrow> 'u result outcome \<times> 'u Request \<times> 'u fetch list"
where
  "executeGET c env parentItem req fs =
     (let proxied = viaProxy c env req;
          fs1 = fs @ [\<lparr>fetch_item = parentItem, fetch_proxied = proxied, fetch_req = req\<rparr>]
      in case clientDo c proxied fs req of
           Inl err \<Rightarrow> (Returns (None, Some err), req, fs1)
         | Inr resp \<Rightarrow>
             if isRedirection env (resp_StatusCode resp) then
               if Header_Get (resp_Header resp) ''location'' = url_String env (req_URL req)
                  \<or> MaxRedirect c \<le> Redirect parentItem
               then (Returns (Some resp, None), req, fs1)
               else
                 (case url_Parse env (Header_Get (resp_Header resp) ''location'') of
                    Inl err \<Rightarrow> (Returns (Some resp, Some err), req, fs1)
                  | Inr u \<Rightarrow>
                      (case http_NewRequest env ''GET'' (url_String env u) of
                         Inl err \<Rightarrow> (Returns (Some resp, Some err), req, fs1)
                       | Inr newReq \<Rightarrow>
                           (case URL parentItem of
                              None \<Rightarrow> (Panics, req, fs1)
                            | Some pu \<Rightarrow>
                                (case executeGET c env
                                        (set_Redirect
                                           (NewItem env u (Some parentItem) (Type parentItem) (Hop parentItem))
                                           (Redirect parentItem + 1))
                                        newReq fs1 of
                                   (r, _, fs2) \<Rightarrow>
                                     (r,
                                      req\<lparr>req_Header :=
                                            Header_Set
                                              (Header_Set
                                                 (Header_Set (req_Header req) ''User-Agent'' (UserAgent c))
                                                 ''Accept-Encoding'' ''*/*'')
                                              ''Referer'' (url_String env pu)\<rparr>,
                                      fs2)))))
             else (Returns (Some resp, None), req, fs1))"
  by pat_completeness auto
termination
  by (relation "measure (\<lambda>(c, env, parentItem, req, fs). MaxRedirect c - Redirect parentItem)")
     (auto simp: set_Redirect_def)

declare executeGET.simps [simp del]

section \<open>Capture\<close>

text \<open>
  The mutable part of \<open>Crawl\<close> that a capture touches: the transports' history, the
  counters \<open>Frontier.QueueCount\<close>, \<open>Crawled\<close> and \<open>ActiveWorkers\<close>, the seencheck
  store, and the trace of what the capture emits, in order: log lines, calls of the
  HTML side, goroutines started. The rate and the execution time of a log line
  (a floating-point rate and a clock reading) are left out of the log events.
\<close>

datatype 'u event =
    LogWarning error string
  | LogAssetWarning error int int int "8 word" string string
  | LogSuccess int int int int "8 word" string string
  | Call_NewDocumentFromResponse
  | Call_extractOutlinks
  | Call_extractAssets
  | Go_queueOutlinks "'u list" "'u Item"

record 'u crawl_state =
  fetches :: "'u fetch list"
  QueueCount :: int
  Crawled :: int
  ActiveWorkers :: int
  seen :: "(64 word \<times> string) list"
  events :: "'u event list"

definition emit :: "'u event \<Rightarrow> 'u crawl_state \<Rightarrow> 'u crawl_state" where
  "emit e st = st\<lparr>events := events st @ [e]\<rparr>"

text \<open>\<open>c.Frontier.QueueCount.Incr(n)\<close>.\<close>

definition QueueCount_Incr :: "int \<Rightarrow> 'u crawl_state \<Rightarrow> 'u crawl_state" where
  "QueueCount_Incr n st = st\<lparr>QueueCount := QueueCount st + n\<rparr>"

text \<open>\<open>strings.Contains(s, substr)\<close>.\<close>

definition HasPrefix :: "string \<Rightarrow> string \<Rightarrow> bool" where
  "HasPrefix s p = (take (length p) s = p)"

fun Contains :: "string \<Rightarrow> string \<Rightarrow> bool" where
  "Contains [] substr = (substr = [])"
| "Contains (ch # s) substr = (HasPrefix (ch # s) substr \<or> Contains s substr)"

text \<open>
  \<open>(*http.Request).AddCookie\<close>: the cookie is appended to the \<open>Cookie\<close> header
  (the sanitising of name and value is left out).
\<close>

definition Request_AddCookie :: "'u Request \<Rightarrow> cookie \<Rightarrow> 'u Request" where
  "Request_AddCookie req ck =
     (let s = fst ck @ ''='' @ snd ck;
          cur = Header_Get (req_Header req) ''Cookie''
      in req\<lparr>req_Header :=
               Header_Set (req_Header req) ''Cookie'' (if cur \<noteq> [] then cur @ ''; '' @ s else s)\<rparr>)"

text \<open>\<open>logCrawlSuccess\<close>: one info line; \<open>item.URL.String()\<close> needs a URL.\<close>

definition logCrawlSuccess ::
  "('u, 'd) env \<Rightarrow> int \<Rightarrow> 'u Item \<Rightarrow> 'u crawl_state \<Rightarrow> unit outcome \<times> 'u crawl_state" where
  "logCrawlSuccess env statusCode item st =
     (case URL item of
        None \<Rightarrow> (Panics, st)
      | Some u \<Rightarrow>
          (Returns (),
           emit (LogSuccess (QueueCount st) (Crawled st) statusCode (ActiveWorkers st)
                   (Hop item) (Type item) (url_String env u)) st))"

text \<open>
  Modelled from the spec: the seencheck store of package \<open>frontier\<close>
  (\<open>Seencheck.IsSeen\<close>, \<open>Seencheck.Seen\<close>), a mapping from the URL hash to the URL type;
  a second mark of a hash leaves the stored value. The key is the decimal rendering of
  the hash, which is one-to-one, so the store is keyed by the hash itself.
\<close>

definition IsSeen :: "'u crawl_state \<Rightarrow> 64 word \<Rightarrow> bool" where
  "IsSeen st h = (h \<in> fst ` set (seen st))"

definition Seen :: "64 word \<Rightarrow> string \<Rightarrow> 'u crawl_state \<Rightarrow> 'u crawl_state" where
  "Seen h t st = (if IsSeen st h then st else st\<lparr>seen := seen st @ [(h, t)]\<rparr>)"

definition captureAsset ::
  "'u Crawl \<Rightarrow> ('u, 'd) env \<Rightarrow> 'u Item \<Rightarrow> cookie list \<Rightarrow> 'u crawl_state
     \<Rightarrow> error option outcome \<times> 'u crawl_state" where
  "captureAsset c env item cookies st =
     (if Seencheck c \<and> IsSeen st (Hash item) then (Returns None, st)
      else
        let st1 = (if Seencheck c then Seen (Hash item) (Type item) st else st) in
        case URL item of
          None \<Rightarrow> (Panics, st1)
        | Some u \<Rightarrow>
            (case http_NewRequest env ''GET'' (url_String env u) of
               Inl err \<Rightarrow> (Returns (Some err), st1)
             | Inr req \<Rightarrow>
                 (case ParentItem item of
                    None \<Rightarrow> (Panics, st1)
                  | Some p \<Rightarrow>
                      (case URL p of
                         None \<Rightarrow> (Panics, st1)
                       | Some pu \<Rightarrow>
                           (case executeGET c env item
                                   (foldl Request_AddCookie
                                      (req\<lparr>req_Header :=
                                             Header_Set (req_Header req) ''Referer'' (url_String env pu)\<rparr>)
                                      cookies)
                                   (fetches st1) of
                              (Panics, _, fs) \<Rightarrow> (Panics, st1\<lparr>fetches := fs\<rparr>)
                            | (Returns (_, Some err), _, fs) \<Rightarrow>
                                (Returns (Some err),
                                 emit (LogWarning err (url_String env u)) (st1\<lparr>fetches := fs\<rparr>))
                            | (Returns (None, None), _, fs) \<Rightarrow> (Panics, st1\<lparr>fetches := fs\<rparr>)
                            | (Returns (Some resp, None), _, fs) \<Rightarrow>
                                (case logCrawlSuccess env (resp_StatusCode resp) item
                                        (st1\<lparr>fetches := fs\<rparr>) of
                                   (Panics, st2) \<Rightarrow> (Panics, st2)
                                 | (Returns _, st2) \<Rightarrow> (Returns None, st2)))))))"

text \<open>
  The asset loop of \<open>Capture\<close> (lines 185 to 208). \<open>assetStep\<close> is the body of one
  iteration after the decrement of \<open>QueueCount\<close>: the check against the page's own
  URL, the capture of the asset, the warning on error. \<open>iu\<close> is \<open>item.URL\<close>.
\<close>

definition assetStep ::
  "'u Crawl \<Rightarrow> ('u, 'd) env \<Rightarrow> 'u Item \<Rightarrow> 'u \<Rightarrow> cookie list \<Rightarrow> 'u \<Rightarrow> 'u crawl_state
     \<Rightarrow> unit outcome \<times> 'u crawl_state" where
  "assetStep c env item iu cookies asset st =
     (if url_String env iu = url_String env asset then (Returns (), st)
      else
        case captureAsset c env (NewItem env asset (Some item) ''asset'' (Hop item)) cookies st of
          (Panics, st2) \<Rightarrow> (Panics, st2)
        | (Returns None, st2) \<Rightarrow> (Returns (), st2)
        | (Returns (Some err), st2) \<Rightarrow>
            (Returns (),
             emit (LogAssetWarning err (QueueCount st2) (Crawled st2) (ActiveWorkers st2)
                     (Hop item) (url_String env iu) (url_String env asset)) st2))"

fun assetLoop ::
  "'u Crawl \<Rightarrow> ('u, 'd) env \<Rightarrow> 'u Item \<Rightarrow> 'u \<Rightarrow> cookie list \<Rightarrow> 'u list \<Rightarrow> 'u crawl_state
     \<Rightarrow> unit outcome \<times> 'u crawl_state" where
  "assetLoop c env item iu cookies [] st = (Returns (), st)"
| "assetLoop c env item iu cookies (asset # assets) st =
     (case assetStep c env item iu cookies asset (QueueCount_Incr (- 1) st) of
        (Panics, st2) \<Rightarrow> (Panics, st2)
      | (Returns _, st2) \<Rightarrow> assetLoop c env item iu cookies assets st2)"

text \<open>
  \<open>Capture\<close> after the success line has been logged (lines 140 to 208): the check of
  the content type, the parsing, the outlinks, the assets.
\<close>

definition scrape ::
  "'u Crawl \<Rightarrow> ('u, 'd) env \<Rightarrow> 'u Item \<Rightarrow> 'u \<Rightarrow> 'u Response \<Rightarrow> 'u crawl_state
     \<Rightarrow> unit outcome \<times> 'u crawl_state" where
  "scrape c env item iu resp st =
     (if Contains (Header_Get (resp_Header resp) ''Content-Type'') ''text/'' = False
      then (Returns (), st)
      else
        case url_Parse env (url_String env (req_URL (resp_Request resp))) of
          Inl err \<Rightarrow> (Returns (), emit (LogWarning err (url_String env iu)) st)
        | Inr base \<Rightarrow>
            (case NewDocumentFromResponse env resp of
               Inl err \<Rightarrow>
                 (Returns (),
                  emit (LogWarning err (url_String env iu)) (emit Call_NewDocumentFromResponse st))
             | Inr doc \<Rightarrow>
                 (case
                    (if Hop item < MaxHops c then
                       (case extractOutlinks env base doc of
                          Inl err \<Rightarrow>
                            (False,
                             emit (LogWarning err (url_String env iu))
                               (emit Call_extractOutlinks (emit Call_NewDocumentFromResponse st)))
                        | Inr outlinks \<Rightarrow>
                            (True,
                             emit (Go_queueOutlinks outlinks item)
                               (emit Call_extractOutlinks (emit Call_NewDocumentFromResponse st))))
                     else (True, emit Call_NewDocumentFromResponse st)) of
                    (False, st1) \<Rightarrow> (Returns (), st1)
                  | (True, st1) \<Rightarrow>
                      (case extractAssets env base doc of
                         Inl err \<Rightarrow>
                           (Returns (),
                            emit (LogWarning err (url_String env iu)) (emit Call_extractAssets st1))
                       | Inr assets \<Rightarrow>
                           assetLoop c env item iu (resp_Cookies env (resp_Header resp)) assets
                             (QueueCount_Incr (int (length assets)) (emit Call_extractAssets st1))))))"

definition Capture ::
  "'u Crawl \<Rightarrow> ('u, 'd) env \<Rightarrow> 'u Item \<Rightarrow> 'u crawl_state \<Rightarrow> unit outcome \<times> 'u crawl_state" where
  "Capture c env item st =
     (case URL item of
        None \<Rightarrow> (Panics, st)
      | Some iu \<Rightarrow>
          (case http_NewRequest env ''GET'' (url_String env iu) of
             Inl err \<Rightarrow> (Returns (), emit (LogWarning err (url_String env iu)) st)
           | Inr req \<Rightarrow>
               (case
                  (if 0 < Hop item then
                     (case ParentItem item of
                        None \<Rightarrow> None
                      | Some p \<Rightarrow>
                          (case URL p of
                             None \<Rightarrow> None
                           | Some pu \<Rightarrow>
                               Some (if 0 < length (url_String env pu) then url_String env pu
                                     else url_Host env iu)))
                   else Some (url_Host env iu)) of
                  None \<Rightarrow> (Panics, st)
                | Some referer \<Rightarrow>
                    (case executeGET c env item
                            (req\<lparr>req_Header := Header_Set (req_Header req) ''Referer'' referer\<rparr>)
                            (fetches st) of
                       (Panics, _, fs) \<Rightarrow> (Panics, st\<lparr>fetches := fs\<rparr>)
                     | (Returns (_, Some err), _, fs) \<Rightarrow>
                         (Returns (), emit (LogWarning err (url_String env iu)) (st\<lparr>fetches := fs\<rparr>))
                     | (Returns (None, None), _, fs) \<Rightarrow> (Panics, st\<lparr>fetches := fs\<rparr>)
                     | (Returns (Some resp, None), _, fs) \<Rightarrow>
                         (case logCrawlSuccess env (resp_StatusCode resp) item (st\<lparr>fetches := fs\<rparr>) of
                            (Panics, st2) \<Rightarrow> (Panics, st2)
                          | (Returns _, st2) \<Rightarrow> scrape c env item iu resp st2)))))"

text \<open>
  The events of outlink handling: the call of \<open>extractOutlinks\<close> and the start of
  \<open>queueOutlinks\<close>; and the events of parsing a body: those two, the call of
  \<open>goquery.NewDocumentFromResponse\<close> and the call of \<open>extractAssets\<close>.
\<close>

fun isOutlinkEvent :: "'u event \<Rightarrow> bool" where
  "isOutlinkEvent Call_extractOutlinks = True"
| "isOutlinkEvent (Go_queueOutlinks outlinks item) = True"
| "isOutlinkEvent e = False"

fun isParseEvent :: "'u event \<Rightarrow> bool" where
  "isParseEvent Call_NewDocumentFromResponse = True"
| "isParseEvent Call_extractAssets = True"
| "isParseEvent e = isOutlinkEvent e"

section \<open>The Kafka bridge\<close>

text \<open>
  What the bridge does, in order: log lines (by their message), calls of
  \<open>p.Produce\<close> with the item they are made for, the payload and the result, sends on
  \<open>crawl.Frontier.PushChan\<close>, sleeps (in seconds), calls of \<open>kafkaClient.ReadMessage\<close>
  with the result, the calls on the 16-way worker pool, the start of the goroutine
  that reads one message (\<open>go func\<close> at line 117), and the calls on the consumer
  client and the producer.
\<close>

datatype 'u kevent =
    KLog string
  | Produce "'u Item" string "error option"
  | PushChan "'u Item"
  | Sleep nat
  | ReadMessage "error + string"
  | PoolAdd
  | Go_kafkaTask
  | PoolDone
  | PoolWait
  | ClientClose
  | Flush nat
  | ProducerClose

text \<open>Go's integer division truncates towards zero.\<close>

definition go_div :: "int \<Rightarrow> int \<Rightarrow> int" where
  "go_div a b = sgn a * sgn b * (\<bar>a\<bar> div \<bar>b\<bar>)"

text \<open>
  The loop of \<open>kafkaProducer\<close> over the items that \<open>KafkaProducerChannel\<close> delivers.
  \<open>finished n\<close> is what \<open>crawl.Finished.Get()\<close> returns in iteration \<open>n\<close>; \<open>produce\<close> is
  the broker: the result of \<open>p.Produce\<close> for a payload, given what happened before.
\<close>

fun producerLoop ::
  "('u, 'd) env \<Rightarrow> (nat \<Rightarrow> bool) \<Rightarrow> ('u kevent list \<Rightarrow> string \<Rightarrow> error option) \<Rightarrow> nat
     \<Rightarrow> 'u Item list \<Rightarrow> 'u kevent list \<Rightarrow> unit outcome \<times> 'u kevent list" where
  "producerLoop env finished produce n [] tr = (Returns (), tr)"
| "producerLoop env finished produce n (item # items) tr =
     (if finished n then (Returns (), tr)
      else
        case URL item of
          None \<Rightarrow> (Panics, tr)
        | Some u \<Rightarrow>
            (case (case ParentItem item of
                     None \<Rightarrow> Some []
                   | Some p \<Rightarrow> (case URL p of None \<Rightarrow> None | Some pu \<Rightarrow> Some (url_String env pu))) of
               None \<Rightarrow> (Panics, tr)
             | Some parentURL \<Rightarrow>
                 (let m = \<lparr>msg_URL = url_String env u, msg_HopsCount = Hop item,
                           msg_ParentURL = parentURL\<rparr>;
                      bytes = fst (json_Marshal env m);
                      tr1 = (case snd (json_Marshal env m) of
                               None \<Rightarrow> tr
                             | Some err \<Rightarrow>
                                 tr @ [KLog ''Unable to marshal message before sending to KAfka'']);
                      perr = produce tr1 bytes;
                      tr2 = tr1 @ [Produce item bytes perr]
                  in producerLoop env finished produce (Suc n) items
                       (case perr of
                          None \<Rightarrow> tr2
                        | Some err \<Rightarrow>
                            tr2 @ [KLog ''Failed to produce message to Kafka, pushing the seed to the local queue instead'',
                                   PushChan item]))))"

text \<open>
  \<open>kafkaProducer\<close>: \<open>newProducer\<close> is the error of \<open>kafka.NewProducer\<close>, if any. The
  goroutine that logs delivery reports runs beside the loop and is left out.
\<close>

definition kafkaProducer ::
  "('u, 'd) env \<Rightarrow> error option \<Rightarrow> (nat \<Rightarrow> bool) \<Rightarrow> ('u kevent list \<Rightarrow> string \<Rightarrow> error option)
     \<Rightarrow> 'u Item list \<Rightarrow> unit outcome \<times> 'u kevent list" where
  "kafkaProducer env newProducer finished produce items =
     (case newProducer of
        Some err \<Rightarrow> (Panics, [])
      | None \<Rightarrow>
          (case producerLoop env finished produce 0 items [] of
             (Panics, tr) \<Rightarrow> (Panics, tr)
           | (Returns _, tr) \<Rightarrow> (Returns (), tr @ [Flush (15 * 1000), ProducerClose])))"

text \<open>
  The goroutine that \<open>kafkaConsumer\<close> starts for one message (lines 117 to 182);
  \<open>rd\<close> is what \<open>kafkaClient.ReadMessage\<close> returns.
\<close>

definition kafkaTask :: "('u, 'd) env \<Rightarrow> error + string \<Rightarrow> unit outcome \<times> 'u kevent list" where
  "kafkaTask env rd =
     (case rd of
        Inl err \<Rightarrow>
          (Returns (),
           [ReadMessage rd, KLog ''Unable to read message from Kafka'', Sleep 3, PoolDone])
      | Inr msgValue \<Rightarrow>
          (case json_Unmarshal env msgValue of
             Inl err \<Rightarrow>
               (Returns (),
                [ReadMessage rd, KLog ''New message received from Kafka'',
                 KLog ''Unable to unmarshal message from Kafka'', PoolDone])
           | Inr None \<Rightarrow>
               (Panics, [ReadMessage rd, KLog ''New message received from Kafka''])
           | Inr (Some newKafkaMessage) \<Rightarrow>
               (case url_Parse env (msg_URL newKafkaMessage) of
                  Inl err \<Rightarrow>
                    (Returns (),
                     [ReadMessage rd, KLog ''New message received from Kafka'',
                      KLog ''Unable to parse URL from Kafka message'', PoolDone])
                | Inr newURL \<Rightarrow>
                    (if 0 < length (msg_ParentURL newKafkaMessage) then
                       (case url_Parse env (msg_ParentURL newKafkaMessage) of
                          Inl err \<Rightarrow>
                            (Returns (),
                             [ReadMessage rd, KLog ''New message received from Kafka'',
                              KLog ''Unable to parse parent URL from Kafka message'',
                              PushChan zeroItem, PoolDone])
                        | Inr newParentURL \<Rightarrow>
                            (Returns (),
                             [ReadMessage rd, KLog ''New message received from Kafka'',
                              PushChan
                                (NewItem env newURL
                                   (Some (NewItem env newParentURL None ''seed''
                                            (if 0 < msg_HopsCount newKafkaMessage
                                             then msg_HopsCount newKafkaMessage - 1 else 0)))
                                   ''seed'' (msg_HopsCount newKafkaMessage)),
                              PoolDone]))
                     else
                       (Returns (),
                        [ReadMessage rd, KLog ''New message received from Kafka'',
                         PushChan (NewItem env newURL None ''seed'' (msg_HopsCount newKafkaMessage)),
                         PoolDone])))))"

text \<open>
  The loop of \<open>kafkaConsumer\<close> (lines 104 to 183), as its own goroutine runs it. The
  loop has no bound of its own: each iteration reads the flag \<open>Finished\<close> and the
  counter \<open>ActiveWorkers\<close>, which other goroutines set, so the loop runs over the list
  of what its iterations observe and is still running when the list ends.

  The goroutine that an iteration starts runs beside the loop: the loop's trace
  records its start, \<open>Go_kafkaTask\<close>, and what it does, beginning with its
  \<open>ReadMessage\<close>, is \<open>kafkaTask\<close>, at whatever time the scheduler gives it.

  The loop carries a clock, in nanoseconds, and stamps what it does with it. An
  iteration begins \<open>obs_elapsed\<close> after the one before ended; \<open>kafkaWorkerPool.Add()\<close>
  blocks for \<open>obs_blocked\<close>; and \<open>time.Sleep(d)\<close> pauses the goroutine for at least
  \<open>d\<close>, that is for \<open>d\<close> and \<open>obs_overslept\<close> more. All three are arbitrary.
\<close>

record observation =
  obs_elapsed :: nat
  obs_Finished :: bool
  obs_ActiveWorkers :: int
  obs_blocked :: nat
  obs_overslept :: nat

datatype loop_status = Running | Stopped | Panicked

text \<open>\<open>time.Second\<close>, in nanoseconds.\<close>

definition time_Second :: nat where
  "time_Second = 1000000000"

fun consumerLoop ::
  "'u Crawl \<Rightarrow> observation list \<Rightarrow> nat \<Rightarrow> (nat \<times> 'u kevent) list
     \<Rightarrow> loop_status \<times> nat \<times> (nat \<times> 'u kevent) list" where
  "consumerLoop c [] now tr = (Running, now, tr)"
| "consumerLoop c (ob # obs) now tr =
     (if obs_Finished ob
      then (Stopped, now + obs_elapsed ob,
            tr @ [(now + obs_elapsed ob, PoolWait), (now + obs_elapsed ob, ClientClose)])
      else if Workers c - go_div (Workers c) 10 \<le> obs_ActiveWorkers ob
      then consumerLoop c obs (now + obs_elapsed ob + time_Second * 1 + obs_overslept ob)
             (tr @ [(now + obs_elapsed ob, Sleep 1)])
      else consumerLoop c obs (now + obs_elapsed ob + obs_blocked ob)
             (tr @ [(now + obs_elapsed ob, PoolAdd),
                    (now + obs_elapsed ob + obs_blocked ob, Go_kafkaTask)]))"

text \<open>
  \<open>kafkaConsumer\<close>: \<open>newConsumer\<close> is the error of \<open>kafka.NewConsumer\<close>, if any.
\<close>

definition kafkaConsumer ::
  "'u Crawl \<Rightarrow> error option \<Rightarrow> observation list \<Rightarrow> nat
     \<Rightarrow> loop_status \<times> nat \<times> (nat \<times> 'u kevent) list" where
  "kafkaConsumer c newConsumer obs now =
     (case newConsumer of
        Some err \<Rightarrow> (Panicked, now, [])
      | None \<Rightarrow>
          consumerLoop c obs now
            [(now, KLog ''Kafka consumer started, it may take some time to actually start pulling messages..'')])"

text \<open>What a trace of the bridge sends on the push channel, and the items whose produce call failed.\<close>

fun pushed :: "'u kevent list \<Rightarrow> 'u Item list" where
  "pushed [] = []"
| "pushed (PushChan item # es) = item # pushed es"
| "pushed (e # es) = pushed es"

fun produceFailures :: "'u kevent list \<Rightarrow> 'u Item list" where
  "produceFailures [] = []"
| "produceFailures (Produce item bytes (Some err) # es) = item # produceFailures es"
| "produceFailures (e # es) = produceFailures es"

fun produceCalls :: "'u kevent list \<Rightarrow> 'u Item list" where
  "produceCalls [] = []"
| "produceCalls (Produce item bytes perr # es) = item # produceCalls es"
| "produceCalls (e # es) = produceCalls es"

section \<open>A concrete environment\<close>

text \<open>
  Concrete collaborators, on which the theorems below are instantiated: URLs are
  their strings, a string with a space does not parse, the redirection class is the
  3xx statuses, a document has one outlink and two assets, one of them the page
  itself. A payload is decoded as the child URL of a message of hop 2 with the
  parent \<open>http://b/\<close>.
\<close>

definition exampleEnv :: "(string, unit) env" where
  "exampleEnv =
     \<lparr>url_Parse = (\<lambda>s. if CHR '' '' \<in> set s then Inl ''invalid character in URL'' else Inr s),
      url_String = (\<lambda>u. u),
      url_Host = (\<lambda>u. u),
      isRedirection = (\<lambda>n. 300 \<le> n \<and> n < 400),
      StringContainsSliceElements = (\<lambda>s xs. False),
      hashURL = (\<lambda>u. of_nat (length u)),
      NewDocumentFromResponse = (\<lambda>r. Inr ()),
      extractOutlinks = (\<lambda>base d. Inr [''http://out/'']),
      extractAssets = (\<lambda>base d. Inr [base, ''http://a/img.png'']),
      resp_Cookies = (\<lambda>h. []),
      json_Marshal = (\<lambda>m. (msg_URL m, None)),
      json_Unmarshal =
        (\<lambda>s. Inr (Some \<lparr>msg_URL = s, msg_HopsCount = 2, msg_ParentURL = ''http://b/''\<rparr>))\<rparr>"

definition exampleCrawl :: "string transport \<Rightarrow> string Crawl" where
  "exampleCrawl client =
     \<lparr>Client = client, ClientProxied = None, BypassProxy = [], UserAgent = ''Zeno'',
      MaxRedirect = 2, MaxHops = 1, Seencheck = False, Workers = 15\<rparr>"

definition redirectTo :: "string \<Rightarrow> string Request \<Rightarrow> string Response" where
  "redirectTo loc req =
     \<lparr>resp_StatusCode = 301, resp_Header = [(''Location'', loc)], resp_Request = req\<rparr>"

definition page :: "string \<Rightarrow> string Request \<Rightarrow> string Response" where
  "page contentType req =
     \<lparr>resp_StatusCode = 200, resp_Header = [(''Content-Type'', contentType)], resp_Request = req\<rparr>"

definition getRequest :: "string \<Rightarrow> string Request" where
  "getRequest u = \<lparr>req_Method = ''GET'', req_URL = u, req_Header = []\<rparr>"

definition seedItem :: "string \<Rightarrow> 8 word \<Rightarrow> string Item" where
  "seedItem u hop = NewItem exampleEnv u None ''seed'' hop"

definition emptyState :: "string crawl_state" where
  "emptyState =
     \<lparr>fetches = [], QueueCount = 0, Crawled = 0, ActiveWorkers = 1, seen = [], events = []\<rparr>"

text \<open>
  Three servers: one that redirects every request to a longer URL, one that redirects
  every request to itself, one that redirects \<open>http://a/\<close> to \<open>http://b/\<close> and serves
  every other URL with the given content type.
\<close>

definition redirectForever :: "string transport" where
  "redirectForever fs req = Inr (redirectTo (req_URL req @ ''x'') req)"

definition redirectToSelf :: "string transport" where
  "redirectToSelf fs req = Inr (redirectTo (req_URL req) req)"

definition redirectOnce :: "string \<Rightarrow> string transport" where
  "redirectOnce contentType fs req =
     Inr (if req_URL req = ''http://a/'' then redirectTo ''http://b/'' req
          else page contentType req)"

text \<open>
  The environment in which a payload is decoded as the child URL of a message of
  hop 2 with the given parent URL; a broker that refuses the payload \<open>http://bad/\<close>.
\<close>

definition exampleEnvParent :: "string \<Rightarrow> (string, unit) env" where
  "exampleEnvParent parentURL =
     exampleEnv\<lparr>json_Unmarshal :=
       (\<lambda>s. Inr (Some \<lparr>msg_URL = s, msg_HopsCount = 2, msg_ParentURL = parentURL\<rparr>))\<rparr>"

definition flakyBroker :: "string kevent list \<Rightarrow> string \<Rightarrow> error option" where
  "flakyBroker tr payload = (if payload = ''http://bad/'' then Some ''broker down'' else None)"


section \<open>Properties of the redirect follower\<close>

lemma Redirect_set_Redirect [simp]: "Redirect (set_Redirect it r) = r"
  by (simp add: set_Redirect_def)

lemma URL_set_Redirect [simp]: "URL (set_Redirect it r) = URL it"
  by (simp add: set_Redirect_def)

lemma URL_NewItem [simp]: "URL (NewItem env u p t h) = Some u"
  by (simp add: NewItem_def)

text \<open>
  One call of \<open>executeGET\<close> either stops after its own fetch, or follows a redirection:
  then the response was a redirection to another URL that parses, the item's
  redirect counter is below \<open>MaxRedirect\<close>, and the call returns what the call for
  the child item returns.
\<close>

lemma executeGET_cases:
  obtains (stop) r where
      "executeGET c env item req fs =
         (r, req, fs @ [\<lparr>fetch_item = item, fetch_proxied = viaProxy c env req, fetch_req = req\<rparr>])"
      "r \<noteq> Panics \<or> URL item = None"
      "r \<noteq> Returns (None, None)"
  | (follow) resp u newReq pu where
      "clientDo c (viaProxy c env req) fs req = Inr resp"
      "isRedirection env (resp_StatusCode resp)"
      "Header_Get (resp_Header resp) ''location'' \<noteq> url_String env (req_URL req)"
      "Redirect item < MaxRedirect c"
      "url_Parse env (Header_Get (resp_Header resp) ''location'') = Inr u"
      "http_NewRequest env ''GET'' (url_String env u) = Inr newReq"
      "URL item = Some pu"
      "fst (executeGET c env item req fs) =
         fst (executeGET c env
           (set_Redirect (NewItem env u (Some item) (Type item) (Hop item)) (Redirect item + 1))
           newReq
           (fs @ [\<lparr>fetch_item = item, fetch_proxied = viaProxy c env req, fetch_req = req\<rparr>]))"
      "snd (snd (executeGET c env item req fs)) =
         snd (snd (executeGET c env
           (set_Redirect (NewItem env u (Some item) (Type item) (Hop item)) (Redirect item + 1))
           newReq
           (fs @ [\<lparr>fetch_item = item, fetch_proxied = viaProxy c env req, fetch_req = req\<rparr>])))"
proof -
  note eq = executeGET.simps [of c env item req fs]
  show ?thesis
    using eq stop follow
    by (auto simp: Let_def split: sum.splits option.splits prod.splits if_splits)
qed

lemma upt_shift: "[r ..< r + Suc n] = r # [Suc r ..< Suc r + n]"
  by (simp add: upt_conv_Cons del: upt_Suc)

lemma executeGET_fetches:
  "\<exists>more. snd (snd (executeGET c env item req fs)) =
            fs @ \<lparr>fetch_item = item, fetch_proxied = viaProxy c env req, fetch_req = req\<rparr> # more \<and>
     map (\<lambda>f. Redirect (fetch_item f)) more =
       [Suc (Redirect item) ..< Suc (Redirect item) + length more] \<and>
     length more \<le> MaxRedirect c - Redirect item"
proof (induction c env item req fs rule: executeGET.induct)
  case (1 c env item req fs)
  let ?f = "\<lparr>fetch_item = item, fetch_proxied = viaProxy c env req, fetch_req = req\<rparr>"
  show ?case
  proof (cases rule: executeGET_cases [of c env item req fs])
    case (stop r)
    then show ?thesis
      by (intro exI [of _ "[]"]) simp
  next
    case (follow resp u newReq pu)
    let ?item' = "set_Redirect (NewItem env u (Some item) (Type item) (Hop item)) (Redirect item + 1)"
    let ?f' = "\<lparr>fetch_item = ?item', fetch_proxied = viaProxy c env newReq, fetch_req = newReq\<rparr>"
    from "1.IH" [OF refl refl follow(1) follow(2) _ follow(5) follow(6) follow(7)]
      follow(3) follow(4)
    obtain more where more:
       "snd (snd (executeGET c env ?item' newReq (fs @ [?f]))) = (fs @ [?f]) @ ?f' # more"
       "map (\<lambda>f. Redirect (fetch_item f)) more =
          [Suc (Suc (Redirect item)) ..< Suc (Suc (Redirect item)) + length more]"
       "length more \<le> MaxRedirect c - Suc (Redirect item)"
      by auto
    have "map (\<lambda>f. Redirect (fetch_item f)) (?f' # more) =
            [Suc (Redirect item) ..< Suc (Redirect item) + length (?f' # more)]"
      using more(2) by (simp only: list.map length_Cons upt_shift) simp
    moreover have "length (?f' # more) \<le> MaxRedirect c - Redirect item"
      using more(3) follow(4) by simp
    moreover have "snd (snd (executeGET c env item req fs)) = fs @ ?f # (?f' # more)"
      using more(1) follow(9) by simp
    ultimately show ?thesis
      by (intro exI [of _ "?f' # more"]) simp
  qed
qed

text \<open>A call for an item that has a URL does not panic.\<close>

lemma executeGET_no_panic:
  "URL item \<noteq> None \<Longrightarrow> fst (executeGET c env item req fs) \<noteq> Panics"
proof (induction c env item req fs rule: executeGET.induct)
  case (1 c env item req fs)
  show ?case
  proof (cases rule: executeGET_cases [of c env item req fs])
    case (stop r)
    then show ?thesis using "1.prems" by auto
  next
    case (follow resp u newReq pu)
    from "1.IH" [OF refl refl follow(1) follow(2) _ follow(5) follow(6) follow(7)]
      follow(3) follow(4) follow(8)
    show ?thesis by auto
  qed
qed

text \<open>A call never returns a nil response together with a nil error.\<close>

lemma executeGET_result:
  "fst (executeGET c env item req fs) \<noteq> Returns (None, None)"
proof (induction c env item req fs rule: executeGET.induct)
  case (1 c env item req fs)
  show ?case
  proof (cases rule: executeGET_cases [of c env item req fs])
    case (stop r)
    then show ?thesis by simp
  next
    case (follow resp u newReq pu)
    from "1.IH" [OF refl refl follow(1) follow(2) _ follow(5) follow(6) follow(7)]
      follow(3) follow(4) follow(8)
    show ?thesis by auto
  qed
qed

text \<open>
  Claim C1. \<open>executeGET\<close> is a total function: its recursion ends because the
  redirect counter of the item grows towards \<open>MaxRedirect\<close>. Whatever the servers
  answer, one call appends its fetches \<open>new\<close> to the history: at least one and at
  most \<open>MaxRedirect + 1\<close>. The items of these fetches, the item of the call and then
  the child item of each recursive call, carry the redirect counters
  \<open>Redirect item\<close>, \<open>Redirect item + 1\<close>, ..., each one more than the one before, and
  every fetch but the last, that is every call that went on to recurse, was made for
  an item whose counter is strictly below \<open>MaxRedirect\<close>.
\<close>

theorem executeGET_redirect_bound:
  "\<exists>new. snd (snd (executeGET c env item req fs)) = fs @ new
     \<and> 1 \<le> length new \<and> length new \<le> MaxRedirect c + 1
     \<and> map (\<lambda>f. Redirect (fetch_item f)) new = [Redirect item ..< Redirect item + length new]
     \<and> (\<forall>f \<in> set (butlast new). Redirect (fetch_item f) < MaxRedirect c)"
proof -
  let ?f = "\<lparr>fetch_item = item, fetch_proxied = viaProxy c env req, fetch_req = req\<rparr>"
  let ?R = "\<lambda>f. Redirect (fetch_item f)"
  from executeGET_fetches [of c env item req fs]
  obtain more where more: "snd (snd (executeGET c env item req fs)) = fs @ ?f # more"
    "map ?R more = [Suc (Redirect item) ..< Suc (Redirect item) + length more]"
    "length more \<le> MaxRedirect c - Redirect item"
    by blast
  let ?new = "?f # more"
  have m: "map ?R ?new = [Redirect item ..< Redirect item + length ?new]"
    using more(2) by (simp only: list.map length_Cons upt_shift) simp
  have b: "\<forall>f \<in> set (butlast ?new). ?R f < MaxRedirect c"
  proof
    fix f assume "f \<in> set (butlast ?new)"
    then obtain j where j: "j < length (butlast ?new)" "butlast ?new ! j = f"
      by (meson in_set_conv_nth)
    have jl: "j < length more"
      using j(1) by (simp only: length_butlast length_Cons)
    have fj: "f = ?new ! j"
      using j nth_butlast [of j ?new] by simp
    have "map ?R ?new ! j = ?R (?new ! j)"
      by (rule nth_map) (use jl in simp)
    then have "?R f = map ?R ?new ! j"
      by (simp only: fj)
    also have "\<dots> = Redirect item + j"
      using jl by (simp only: m) (simp del: upt_Suc)
    finally show "?R f < MaxRedirect c" using jl more(3) by simp
  qed
  show ?thesis
    using more(1) more(3) m b by (intro exI [of _ ?new]) simp
qed

text \<open>
  With \<open>MaxRedirect = 2\<close> and a server that redirects for ever, a call for a fresh
  item makes three fetches, for items with the counters 0, 1 and 2.
\<close>

theorem executeGET_redirect_bound_witness:
  "length (snd (snd (executeGET (exampleCrawl redirectForever) exampleEnv
              (seedItem ''http://a/'' 0) (getRequest ''http://a/'') []))) = 3
   \<and> MaxRedirect (exampleCrawl redirectForever) + 1 = 3
   \<and> map (\<lambda>f. Redirect (fetch_item f))
         (snd (snd (executeGET (exampleCrawl redirectForever) exampleEnv
              (seedItem ''http://a/'' 0) (getRequest ''http://a/'') []))) = [0, 1, 2]"
proof -
  define c where "c = exampleCrawl redirectForever"
  define fs where
    "fs = snd (snd (executeGET c exampleEnv (seedItem ''http://a/'' 0) (getRequest ''http://a/'') []))"
  from executeGET_redirect_bound [of c exampleEnv "seedItem ''http://a/'' 0" "getRequest ''http://a/''" "[]"]
  obtain new where "fs = [] @ new" "length new \<le> MaxRedirect c + 1"
    unfolding fs_def by blast
  then have le: "length fs \<le> MaxRedirect c + 1"
    by simp
  have m: "MaxRedirect c + 1 = 3"
    by (simp add: c_def exampleCrawl_def)
  have r: "map (\<lambda>f. Redirect (fetch_item f)) fs = [0, 1, 2]"
    unfolding fs_def c_def by code_simp
  have "length (map (\<lambda>f. Redirect (fetch_item f)) fs) = length [0, 1, 2 :: nat]"
    by (simp only: r)
  then have "length fs = 3"
    by simp
  with m r le show ?thesis
    unfolding fs_def c_def by simp
qed

text \<open>
  Claim C7. When the response to the request of a call is a redirection whose
  \<open>Location\<close> header is the string of the request URL, the call returns that response
  with a nil error, leaves the request as it was and adds exactly one fetch, its
  own, to the history: it does not recurse.
\<close>

theorem executeGET_self_redirect:
  assumes "clientDo c (viaProxy c env req) fs req = Inr resp"
    and "isRedirection env (resp_StatusCode resp)"
    and "Header_Get (resp_Header resp) ''location'' = url_String env (req_URL req)"
  shows "executeGET c env item req fs =
     (Returns (Some resp, None), req,
      fs @ [\<lparr>fetch_item = item, fetch_proxied = viaProxy c env req, fetch_req = req\<rparr>])"
  using assms by (subst executeGET.simps) (simp add: Let_def)

theorem executeGET_self_redirect_witness:
  "executeGET (exampleCrawl redirectToSelf) exampleEnv
      (seedItem ''http://a/'' 0) (getRequest ''http://a/'') [] =
     (Returns (Some (redirectTo ''http://a/'' (getRequest ''http://a/'')), None),
      getRequest ''http://a/'',
      [\<lparr>fetch_item = seedItem ''http://a/'' 0, fetch_proxied = False,
        fetch_req = getRequest ''http://a/''\<rparr>])"
proof -
  define c where "c = exampleCrawl redirectToSelf"
  define req where "req = getRequest ''http://a/''"
  define resp where "resp = redirectTo ''http://a/'' req"
  have p: "viaProxy c exampleEnv req = False"
    by (simp add: viaProxy_def exampleCrawl_def c_def)
  have 1: "clientDo c (viaProxy c exampleEnv req) [] req = Inr resp"
    by (simp add: p clientDo_def exampleCrawl_def getRequest_def redirectToSelf_def
          c_def req_def resp_def)
  have 2: "isRedirection exampleEnv (resp_StatusCode resp)"
    by (simp add: exampleEnv_def redirectTo_def resp_def)
  have 3: "Header_Get (resp_Header resp) ''location'' = url_String exampleEnv (req_URL req)"
    unfolding resp_def req_def by code_simp
  from executeGET_self_redirect [OF 1 2 3, of "seedItem ''http://a/'' 0"] p
  show ?thesis
    unfolding c_def req_def resp_def by simp
qed

lemma redirectOnce_requests:
  "map (\<lambda>f. (req_URL (fetch_req f),
              Header_Get (req_Header (fetch_req f)) ''User-Agent'',
              Header_Get (req_Header (fetch_req f)) ''Accept-Encoding'',
              Header_Get (req_Header (fetch_req f)) ''Referer''))
     (snd (snd (executeGET (exampleCrawl (redirectOnce ''text/html'')) exampleEnv
                  (seedItem ''http://a/'' 0) (getRequest ''http://a/'') [])))
   = [(''http://a/'', [], [], []), (''http://b/'', [], [], [])]"
  by code_simp

lemma redirectOnce_parent_request:
  "req_Header (fst (snd (executeGET (exampleCrawl (redirectOnce ''text/html'')) exampleEnv
                          (seedItem ''http://a/'' 0) (getRequest ''http://a/'') [])))
     = [(''referer'', ''http://a/''), (''accept-encoding'', ''*/*''), (''user-agent'', ''Zeno'')]"
  by code_simp

text \<open>
  Claim C3, on the code. A server redirects \<open>http://a/\<close> to \<open>http://b/\<close>. The request
  that \<open>executeGET\<close> then sends for \<open>http://b/\<close> has no \<open>User-Agent\<close>, no
  \<open>Accept-Encoding\<close> and no \<open>Referer\<close> header, although the configured user agent is
  \<open>Zeno\<close>: the three headers are written into the request for \<open>http://a/\<close>, which has
  been sent already.
\<close>

theorem executeGET_redirect_headers_on_parent_request:
  "map (\<lambda>f. (req_URL (fetch_req f),
              Header_Get (req_Header (fetch_req f)) ''User-Agent'',
              Header_Get (req_Header (fetch_req f)) ''Accept-Encoding'',
              Header_Get (req_Header (fetch_req f)) ''Referer''))
     (snd (snd (executeGET (exampleCrawl (redirectOnce ''text/html'')) exampleEnv
                  (seedItem ''http://a/'' 0) (getRequest ''http://a/'') [])))
   = [(''http://a/'', [], [], []), (''http://b/'', [], [], [])]
   \<and> UserAgent (exampleCrawl (redirectOnce ''text/html'')) = ''Zeno''
   \<and> req_Header (fst (snd (executeGET (exampleCrawl (redirectOnce ''text/html'')) exampleEnv
                          (seedItem ''http://a/'' 0) (getRequest ''http://a/'') [])))
     = [(''referer'', ''http://a/''), (''accept-encoding'', ''*/*''), (''user-agent'', ''Zeno'')]"
  using redirectOnce_requests redirectOnce_parent_request
  by (simp add: exampleCrawl_def)

section \<open>Properties of the Kafka bridge\<close>

lemma pushed_append: "pushed (xs @ ys) = pushed xs @ pushed ys"
  by (induction xs rule: pushed.induct) simp_all

lemma produceFailures_append:
  "produceFailures (xs @ ys) = produceFailures xs @ produceFailures ys"
  by (induction xs rule: produceFailures.induct) simp_all

lemma produceCalls_append: "produceCalls (xs @ ys) = produceCalls xs @ produceCalls ys"
  by (induction xs rule: produceCalls.induct) simp_all

text \<open>
  The loop of the producer only adds to its trace; what it adds pushes exactly the
  items whose produce call failed, and calls produce for a prefix of the items.
\<close>

lemma producerLoop_trace:
  "\<exists>new k. snd (producerLoop env finished produce n items tr) = tr @ new
     \<and> pushed new = produceFailures new
     \<and> produceCalls new = take k items"
proof (induction items arbitrary: n tr)
  case Nil
  show ?case by (intro exI [of _ "[]"]) simp
next
  case (Cons item items)
  show ?case
  proof (cases "finished n")
    case True
    then show ?thesis by (intro exI [of _ "[]"] exI [of _ 0]) simp
  next
    case False
    show ?thesis
    proof (cases "URL item")
      case None
      with False show ?thesis by (intro exI [of _ "[]"] exI [of _ 0]) simp
    next
      case (Some u)
      show ?thesis
      proof (cases "case ParentItem item of None \<Rightarrow> Some []
                     | Some p \<Rightarrow> (case URL p of None \<Rightarrow> None | Some pu \<Rightarrow> Some (url_String env pu))")
        case None
        with False Some show ?thesis by (intro exI [of _ "[]"] exI [of _ 0]) simp
      next
        case (Some parentURL)
        define m where "m = \<lparr>msg_URL = url_String env u, msg_HopsCount = Hop item,
                           msg_ParentURL = parentURL\<rparr>"
        define w :: "'a kevent list" where
          "w = (case snd (json_Marshal env m) of None \<Rightarrow> []
                | Some err \<Rightarrow> [KLog ''Unable to marshal message before sending to KAfka''])"
        define perr where "perr = produce (tr @ w) (fst (json_Marshal env m))"
        define step where "step = w @ Produce item (fst (json_Marshal env m)) perr #
           (case perr of None \<Rightarrow> []
            | Some err \<Rightarrow> [KLog ''Failed to produce message to Kafka, pushing the seed to the local queue instead'',
                              PushChan item])"
        have unfold: "producerLoop env finished produce n (item # items) tr =
                producerLoop env finished produce (Suc n) items (tr @ step)"
          using False \<open>URL item = Some u\<close> Some
          by (simp add: Let_def m_def w_def perr_def step_def split: option.splits)
        from Cons.IH [of "Suc n" "tr @ step"]
        obtain new k where new:
          "snd (producerLoop env finished produce (Suc n) items (tr @ step)) = (tr @ step) @ new"
          "pushed new = produceFailures new" "produceCalls new = take k items"
          by blast
        have s1: "pushed step = produceFailures step"
          by (simp add: step_def w_def pushed_append produceFailures_append split: option.splits)
        have s2: "produceCalls step = [item]"
          by (simp add: step_def w_def produceCalls_append split: option.splits)
        show ?thesis
          using new s1 s2 unfold
          by (intro exI [of _ "step @ new"] exI [of _ "Suc k"])
             (simp add: pushed_append produceFailures_append produceCalls_append)
      qed
    qed
  qed
qed

text \<open>
  Claim C6. In every run of \<open>kafkaProducer\<close>, whatever the broker answers and whenever
  the flag \<open>Finished\<close> is set, the items sent on the push channel of the Frontier are
  exactly the items whose call of \<open>p.Produce\<close> returned an error, in the same order:
  an item whose produce call fails is pushed, not dropped. The produce calls are made
  for the items of the channel, in order, one each, up to where the loop ends.
\<close>

theorem kafkaProducer_fallback:
  "pushed (snd (kafkaProducer env newProducer finished produce items)) =
     produceFailures (snd (kafkaProducer env newProducer finished produce items))
   \<and> (\<exists>k. produceCalls (snd (kafkaProducer env newProducer finished produce items)) = take k items)"
proof (cases newProducer)
  case (Some err)
  then show ?thesis by (simp add: kafkaProducer_def exI [of _ 0])
next
  case None
  from producerLoop_trace [of env finished produce 0 items "[]"]
  obtain new k where new: "snd (producerLoop env finished produce 0 items []) = new"
     "pushed new = produceFailures new" "produceCalls new = take k items"
    by auto
  obtain r where r: "producerLoop env finished produce 0 items [] = (r, new)"
    using new(1) by (cases "producerLoop env finished produce 0 items []") simp
  show ?thesis
    using None new(2,3) r
    by (cases r) (auto simp: kafkaProducer_def pushed_append produceFailures_append produceCalls_append)
qed

text \<open>
  Two items, the broker refuses the second: the second is on the push channel.
\<close>

theorem kafkaProducer_fallback_witness:
  "produceFailures (snd (kafkaProducer exampleEnv None (\<lambda>n. False) flakyBroker
       [seedItem ''http://ok/'' 1, seedItem ''http://bad/'' 1])) = [seedItem ''http://bad/'' 1]
   \<and> pushed (snd (kafkaProducer exampleEnv None (\<lambda>n. False) flakyBroker
       [seedItem ''http://ok/'' 1, seedItem ''http://bad/'' 1])) = [seedItem ''http://bad/'' 1]"
proof -
  have f: "produceFailures (snd (kafkaProducer exampleEnv None (\<lambda>n. False) flakyBroker
       [seedItem ''http://ok/'' 1, seedItem ''http://bad/'' 1])) = [seedItem ''http://bad/'' 1]"
    by code_simp
  from kafkaProducer_fallback [of exampleEnv None "\<lambda>n. False" flakyBroker
       "[seedItem ''http://ok/'' 1, seedItem ''http://bad/'' 1]"] f
  show ?thesis by simp
qed

text \<open>
  The threshold of the consumer is \<open>Workers - Workers/10\<close> with Go's truncating
  division. An integer that is at least nine tenths of \<open>Workers\<close> reaches it; for a
  pool that is not negative the threshold is nine tenths of \<open>Workers\<close> rounded up, so
  the converse holds too.
\<close>

lemma admission_threshold:
  "Workers c * 9 \<le> 10 * a \<Longrightarrow> Workers c - go_div (Workers c) 10 \<le> a"
  by (cases "0 \<le> Workers c") (auto simp: go_div_def sgn_if)

lemma admission_threshold_iff:
  "0 \<le> Workers c \<Longrightarrow> (Workers c - go_div (Workers c) 10 \<le> a) = (Workers c * 9 \<le> 10 * a)"
  by (auto simp: go_div_def sgn_if)

text \<open>What the loop adds to its trace is stamped no earlier than the time it starts at.\<close>

lemma consumerLoop_stamps:
  "\<exists>new. snd (snd (consumerLoop c obs now tr)) = tr @ new \<and> (\<forall>te \<in> set new. now \<le> fst te)"
proof (induction obs arbitrary: now tr)
  case Nil
  show ?case by simp
next
  case (Cons ob obs)
  show ?case
  proof (cases "obs_Finished ob")
    case True
    then show ?thesis by simp
  next
    case False
    show ?thesis
    proof (cases "Workers c - go_div (Workers c) 10 \<le> obs_ActiveWorkers ob")
      case True
      from Cons.IH [of "now + obs_elapsed ob + time_Second * 1 + obs_overslept ob"
                       "tr @ [(now + obs_elapsed ob, Sleep 1)]"]
      obtain new where new:
        "snd (snd (consumerLoop c obs (now + obs_elapsed ob + time_Second * 1 + obs_overslept ob)
                     (tr @ [(now + obs_elapsed ob, Sleep 1)])))
          = (tr @ [(now + obs_elapsed ob, Sleep 1)]) @ new"
        "\<forall>te \<in> set new. now + obs_elapsed ob + time_Second * 1 + obs_overslept ob \<le> fst te"
        by blast
      show ?thesis
        using False True new
        by (intro exI [of _ "(now + obs_elapsed ob, Sleep 1) # new"]) auto
    next
      case below: False
      from Cons.IH [of "now + obs_elapsed ob + obs_blocked ob"
                       "tr @ [(now + obs_elapsed ob, PoolAdd),
                              (now + obs_elapsed ob + obs_blocked ob, Go_kafkaTask)]"]
      obtain new where new:
        "snd (snd (consumerLoop c obs (now + obs_elapsed ob + obs_blocked ob)
                     (tr @ [(now + obs_elapsed ob, PoolAdd),
                            (now + obs_elapsed ob + obs_blocked ob, Go_kafkaTask)])))
          = (tr @ [(now + obs_elapsed ob, PoolAdd),
                   (now + obs_elapsed ob + obs_blocked ob, Go_kafkaTask)]) @ new"
        "\<forall>te \<in> set new. now + obs_elapsed ob + obs_blocked ob \<le> fst te"
        by blast
      show ?thesis
        using False below new
        by (intro exI [of _ "(now + obs_elapsed ob, PoolAdd) #
                             (now + obs_elapsed ob + obs_blocked ob, Go_kafkaTask) # new"]) auto
    qed
  qed
qed

text \<open>The goroutine that an iteration starts begins by reading a message.\<close>

lemma kafkaTask_reads_first: "\<exists>rest. snd (kafkaTask env rd) = ReadMessage rd # rest"
  by (simp add: kafkaTask_def split: sum.split option.split)

text \<open>
  Claim C5, as the code has it. When an iteration of the consumer loop, at the time
  \<open>t\<close>, finds the flag \<open>Finished\<close> unset and \<open>ActiveWorkers\<close> at least
  \<open>Workers - Workers/10\<close>, with Go's truncating division, the iteration does one thing,
  the sleep of one second, and the loop goes on with its next iteration. Whatever
  the loop does after that it does at \<open>t\<close> plus one second or later: until then it takes
  no slot of the worker pool and starts no goroutine, so no new read.
\<close>

theorem consumerLoop_admission_control:
  assumes "\<not> obs_Finished ob"
    and "Workers c - go_div (Workers c) 10 \<le> obs_ActiveWorkers ob"
  shows "consumerLoop c (ob # obs) now tr =
           consumerLoop c obs (now + obs_elapsed ob + time_Second * 1 + obs_overslept ob)
             (tr @ [(now + obs_elapsed ob, Sleep 1)])
     \<and> (\<exists>later. snd (snd (consumerLoop c (ob # obs) now tr)) =
                    tr @ (now + obs_elapsed ob, Sleep 1) # later
              \<and> (\<forall>te \<in> set later. now + obs_elapsed ob + time_Second \<le> fst te))"
proof -
  from consumerLoop_stamps [of c obs "now + obs_elapsed ob + time_Second * 1 + obs_overslept ob"
                              "tr @ [(now + obs_elapsed ob, Sleep 1)]"]
  obtain later where later:
    "snd (snd (consumerLoop c obs (now + obs_elapsed ob + time_Second * 1 + obs_overslept ob)
                 (tr @ [(now + obs_elapsed ob, Sleep 1)])))
      = (tr @ [(now + obs_elapsed ob, Sleep 1)]) @ later"
    "\<forall>te \<in> set later. now + obs_elapsed ob + time_Second * 1 + obs_overslept ob \<le> fst te"
    by blast
  have "\<forall>te \<in> set later. now + obs_elapsed ob + time_Second \<le> fst te"
    using later(2) by auto
  with later(1) assms show ?thesis
    by (intro conjI exI [of _ later]) simp_all
qed

text \<open>
  15 workers, 14 of them active at the first iteration and none at the second, which
  begins a quarter of a second after the sleep ended: the loop sleeps at time 0 and
  takes a slot at 1.25 seconds.
\<close>

theorem consumerLoop_admission_control_witness:
  "consumerLoop (exampleCrawl redirectToSelf)
     [\<lparr>obs_elapsed = 0, obs_Finished = False, obs_ActiveWorkers = 14, obs_blocked = 0,
       obs_overslept = 0\<rparr>,
      \<lparr>obs_elapsed = 250000000, obs_Finished = False, obs_ActiveWorkers = 0, obs_blocked = 0,
       obs_overslept = 0\<rparr>] 0 []
   = (Running, 1250000000,
      [(0, Sleep 1), (1250000000, PoolAdd), (1250000000, Go_kafkaTask)])"
proof -
  define ob where
    "ob = \<lparr>obs_elapsed = 0, obs_Finished = False, obs_ActiveWorkers = 14, obs_blocked = 0,
           obs_overslept = 0\<rparr>"
  have 1: "\<not> obs_Finished ob" by (simp add: ob_def)
  have 2: "Workers (exampleCrawl redirectToSelf) - go_div (Workers (exampleCrawl redirectToSelf)) 10
             \<le> obs_ActiveWorkers ob"
    by (simp add: ob_def exampleCrawl_def go_div_def)
  from consumerLoop_admission_control [OF 1 2, of
      "[\<lparr>obs_elapsed = 250000000, obs_Finished = False, obs_ActiveWorkers = 0, obs_blocked = 0,
         obs_overslept = 0\<rparr>]" 0 "[]"]
  show ?thesis
    by (simp add: ob_def exampleCrawl_def go_div_def time_Second_def)
qed

text \<open>
  The claim as the spec words it, with the threshold \<open>Workers*9/10\<close>: with 15 workers
  that is 13, and with 13 active workers the loop does not sleep. It takes a slot
  and starts the goroutine, which reads.
\<close>

theorem consumerLoop_admission_control_counterexample:
  "go_div (Workers (exampleCrawl redirectToSelf) * 9) 10 \<le> 13
   \<and> consumerLoop (exampleCrawl redirectToSelf)
        [\<lparr>obs_elapsed = 0, obs_Finished = False, obs_ActiveWorkers = 13, obs_blocked = 0,
          obs_overslept = 0\<rparr>] 0 []
      = (Running, 0, [(0, PoolAdd), (0, Go_kafkaTask)])
   \<and> snd (kafkaTask exampleEnv (Inl ''timed out''))
      = [ReadMessage (Inl ''timed out''), KLog ''Unable to read message from Kafka'',
         Sleep 3, PoolDone]"
  by (simp add: exampleCrawl_def go_div_def kafkaTask_def)

lemma uint_pred: "0 < (h :: 8 word) \<Longrightarrow> uint (h - 1) = uint h - 1"
  by (simp add: uint_minus_simple_alt word_le_def word_less_def uint_sub_if')

text \<open>
  Claim C8. For a message that decodes to \<open>{u, hop, parent_url}\<close> where \<open>u\<close> parses:
  when \<open>parent_url\<close> is not empty and parses, the task returns after pushing one item,
  with the parsed URL of \<open>u\<close>, the type \<open>seed\<close>, the hop of the message and a parent
  item whose URL is the parsed \<open>parent_url\<close> and whose hop is \<open>max(0, hop - 1)\<close>; when
  \<open>parent_url\<close> is empty, the one item pushed has the same URL, type and hop and no
  parent.
\<close>

theorem kafkaTask_pushes_item:
  assumes "json_Unmarshal env v = Inr (Some m)"
    and "url_Parse env (msg_URL m) = Inr u"
  shows "(msg_ParentURL m \<noteq> [] \<and> url_Parse env (msg_ParentURL m) = Inr pu \<longrightarrow>
            fst (kafkaTask env (Inr v)) = Returns () \<and>
            (\<exists>item parent. pushed (snd (kafkaTask env (Inr v))) = [item]
               \<and> URL item = Some u \<and> Type item = ''seed'' \<and> Hop item = msg_HopsCount m
               \<and> ParentItem item = Some parent \<and> URL parent = Some pu
               \<and> uint (Hop parent) = max 0 (uint (msg_HopsCount m) - 1)))
       \<and> (msg_ParentURL m = [] \<longrightarrow>
            fst (kafkaTask env (Inr v)) = Returns () \<and>
            (\<exists>item. pushed (snd (kafkaTask env (Inr v))) = [item]
               \<and> URL item = Some u \<and> Type item = ''seed'' \<and> Hop item = msg_HopsCount m
               \<and> ParentItem item = None))"
proof -
  have h: "uint (if 0 < msg_HopsCount m then msg_HopsCount m - 1 else 0) =
           max 0 (uint (msg_HopsCount m) - 1)"
    by (cases "0 < msg_HopsCount m") (auto simp: uint_pred word_less_def)
  show ?thesis
    using assms h by (simp add: kafkaTask_def NewItem_def)
qed

text \<open>
  The message \<open>{u: http://c/, hop: 2, parent_url: http://b/}\<close>: the item pushed has
  hop 2 and a parent \<open>http://b/\<close> of hop 1; with an empty \<open>parent_url\<close> it has no parent.
\<close>

theorem kafkaTask_pushes_item_witness:
  "(\<exists>item parent. pushed (snd (kafkaTask (exampleEnvParent ''http://b/'') (Inr ''http://c/''))) = [item]
      \<and> URL item = Some ''http://c/'' \<and> Type item = ''seed'' \<and> Hop item = 2
      \<and> ParentItem item = Some parent \<and> URL parent = Some ''http://b/''
      \<and> uint (Hop parent) = 1)
   \<and> (\<exists>item. pushed (snd (kafkaTask (exampleEnvParent []) (Inr ''http://c/''))) = [item]
      \<and> URL item = Some ''http://c/'' \<and> Type item = ''seed'' \<and> Hop item = 2
      \<and> ParentItem item = None)"
proof -
  have 1: "json_Unmarshal (exampleEnvParent p) ''http://c/'' =
             Inr (Some \<lparr>msg_URL = ''http://c/'', msg_HopsCount = 2, msg_ParentURL = p\<rparr>)" for p
    by (simp add: exampleEnvParent_def)
  have 2: "url_Parse (exampleEnvParent p)
             (msg_URL \<lparr>msg_URL = ''http://c/'', msg_HopsCount = 2, msg_ParentURL = p\<rparr>) = Inr ''http://c/''" for p
    by (simp add: exampleEnvParent_def exampleEnv_def)
  have 3: "url_Parse (exampleEnvParent ''http://b/'') ''http://b/'' = Inr ''http://b/''"
    by (simp add: exampleEnvParent_def exampleEnv_def)
  from kafkaTask_pushes_item [OF 1 2, of "''http://b/''" "''http://b/''"] 3
  have a: "\<exists>item parent. pushed (snd (kafkaTask (exampleEnvParent ''http://b/'') (Inr ''http://c/''))) = [item]
      \<and> URL item = Some ''http://c/'' \<and> Type item = ''seed'' \<and> Hop item = 2
      \<and> ParentItem item = Some parent \<and> URL parent = Some ''http://b/''
      \<and> uint (Hop parent) = 1"
    by simp
  from kafkaTask_pushes_item [OF 1 2, of "[]" "''http://b/''"]
  have b: "\<exists>item. pushed (snd (kafkaTask (exampleEnvParent []) (Inr ''http://c/''))) = [item]
      \<and> URL item = Some ''http://c/'' \<and> Type item = ''seed'' \<and> Hop item = 2
      \<and> ParentItem item = None"
    by simp
  from a b show ?thesis by (rule conjI)
qed

text \<open>
  Claim C10. For a message that decodes to \<open>{u, hop, parent_url}\<close> where \<open>u\<close> parses and
  \<open>parent_url\<close> is not empty and does not parse, the task still returns after pushing
  one item, and that item is the zero Item of \<open>new(frontier.Item)\<close>: no URL, no type,
  hop 0, no parent.
\<close>

theorem kafkaTask_unparseable_parent:
  assumes "json_Unmarshal (env :: ('u, 'd) env) v = Inr (Some m)"
    and "url_Parse env (msg_URL m) = Inr u"
    and "msg_ParentURL m \<noteq> []"
    and "url_Parse env (msg_ParentURL m) = Inl err"
  shows "fst (kafkaTask env (Inr v)) = Returns ()
     \<and> pushed (snd (kafkaTask env (Inr v))) = [zeroItem]
     \<and> URL (zeroItem :: 'u Item) = None \<and> Type (zeroItem :: 'u Item) = []
     \<and> Hop (zeroItem :: 'u Item) = 0 \<and> ParentItem (zeroItem :: 'u Item) = None"
  using assms by (simp add: kafkaTask_def zeroItem_def)

theorem kafkaTask_unparseable_parent_witness:
  "fst (kafkaTask (exampleEnvParent ''http://b b/'') (Inr ''http://c/'')) = Returns ()
   \<and> pushed (snd (kafkaTask (exampleEnvParent ''http://b b/'') (Inr ''http://c/''))) = [zeroItem]"
proof -
  have 1: "json_Unmarshal (exampleEnvParent ''http://b b/'') ''http://c/'' =
             Inr (Some \<lparr>msg_URL = ''http://c/'', msg_HopsCount = 2, msg_ParentURL = ''http://b b/''\<rparr>)"
    by (simp add: exampleEnvParent_def)
  have 2: "url_Parse (exampleEnvParent ''http://b b/'')
             (msg_URL \<lparr>msg_URL = ''http://c/'', msg_HopsCount = 2, msg_ParentURL = ''http://b b/''\<rparr>)
           = Inr ''http://c/''"
    by (simp add: exampleEnvParent_def exampleEnv_def)
  have 3: "msg_ParentURL \<lparr>msg_URL = ''http://c/'', msg_HopsCount = 2, msg_ParentURL = ''http://b b/''\<rparr> \<noteq> []"
    by simp
  have 4: "url_Parse (exampleEnvParent ''http://b b/'')
             (msg_ParentURL \<lparr>msg_URL = ''http://c/'', msg_HopsCount = 2, msg_ParentURL = ''http://b b/''\<rparr>)
           = Inl ''invalid character in URL''"
    by (simp add: exampleEnvParent_def exampleEnv_def)
  from kafkaTask_unparseable_parent [OF 1 2 3 4]
  show ?thesis by simp
qed

section \<open>Properties of Capture\<close>

lemma QueueCount_emit [simp]: "QueueCount (emit e st) = QueueCount st"
  by (simp add: emit_def)

lemma QueueCount_Seen [simp]: "QueueCount (Seen h t st) = QueueCount st"
  by (simp add: Seen_def)

lemma events_emit [simp]: "events (emit e st) = events st @ [e]"
  by (simp add: emit_def)

lemma events_Seen [simp]: "events (Seen h t st) = events st"
  by (simp add: Seen_def)

lemma events_QueueCount_Incr [simp]: "events (QueueCount_Incr n st) = events st"
  by (simp add: QueueCount_Incr_def)

lemma QueueCount_QueueCount_Incr [simp]: "QueueCount (QueueCount_Incr n st) = QueueCount st + n"
  by (simp add: QueueCount_Incr_def)

lemma captureAsset_QueueCount [simp]:
  "QueueCount (snd (captureAsset c env item cookies st)) = QueueCount st"
proof -
  have a: "QueueCount (snd (case x of (Panics, st2) \<Rightarrow> (Panics, st2)
                              | (Returns _, st2) \<Rightarrow> (Returns None, st2))) = QueueCount (snd x)"
    for x :: "unit outcome \<times> 'a crawl_state"
    by (cases x; cases "fst x") auto
  show ?thesis
    unfolding captureAsset_def Let_def
    by (simp add: a logCrawlSuccess_def split: option.split sum.split outcome.split prod.split)
qed

lemma captureAsset_events:
  "\<exists>new. events (snd (captureAsset c env item cookies st)) = events st @ new
     \<and> filter isParseEvent new = []"
  unfolding captureAsset_def Let_def
  by (simp add: logCrawlSuccess_def split: option.split sum.split outcome.split prod.split)

lemma captureAsset_no_panic:
  assumes "URL item \<noteq> None" and "ParentItem item = Some p" and "URL p \<noteq> None"
  shows "fst (captureAsset c env item cookies st) \<noteq> Panics"
proof -
  have "fst (executeGET c env item req fs) \<noteq> Panics" for req fs
    using assms(1) by (rule executeGET_no_panic)
  moreover have "fst (executeGET c env item req fs) \<noteq> Returns (None, None)" for req fs
    by (rule executeGET_result)
  ultimately have e: "executeGET c env item req fs = (r, q, fs') \<Longrightarrow>
        r \<noteq> Panics \<and> r \<noteq> Returns (None, None)" for req fs r q fs'
    by (metis fst_conv)
  show ?thesis
    using assms unfolding captureAsset_def Let_def
    by (auto simp: logCrawlSuccess_def dest: e split: option.split sum.split outcome.split prod.split)
qed

lemma assetStep_QueueCount [simp]:
  "QueueCount (snd (assetStep c env item iu cookies asset st)) = QueueCount st"
proof -
  obtain r st2 where x: "captureAsset c env (NewItem env asset (Some item) ''asset'' (Hop item)) cookies st = (r, st2)"
    by (cases "captureAsset c env (NewItem env asset (Some item) ''asset'' (Hop item)) cookies st")
  from captureAsset_QueueCount [of c env "NewItem env asset (Some item) ''asset'' (Hop item)" cookies st] x
  have "QueueCount st2 = QueueCount st" by simp
  then show ?thesis
    using x by (simp add: assetStep_def split: outcome.split option.split)
qed

lemma assetStep_events:
  "\<exists>new. events (snd (assetStep c env item iu cookies asset st)) = events st @ new
     \<and> filter isParseEvent new = []"
proof -
  obtain r st2 where x: "captureAsset c env (NewItem env asset (Some item) ''asset'' (Hop item)) cookies st = (r, st2)"
    by (cases "captureAsset c env (NewItem env asset (Some item) ''asset'' (Hop item)) cookies st")
  from captureAsset_events [of c env "NewItem env asset (Some item) ''asset'' (Hop item)" cookies st] x
  obtain new where "events st2 = events st @ new" "filter isParseEvent new = []" by auto
  then show ?thesis
    using x by (auto simp: assetStep_def split: outcome.split option.split)
qed

lemma assetStep_no_panic:
  assumes "URL item = Some iu"
  shows "fst (assetStep c env item iu cookies asset st) = Returns ()"
proof -
  have "fst (captureAsset c env (NewItem env asset (Some item) ''asset'' (Hop item)) cookies st) \<noteq> Panics"
    by (rule captureAsset_no_panic [where p = item]) (simp_all add: NewItem_def assms)
  then show ?thesis
    by (auto simp: assetStep_def split: outcome.split option.split prod.split)
qed

lemma assetLoop_no_panic:
  assumes "URL item = Some iu"
  shows "fst (assetLoop c env item iu cookies assets st) = Returns ()"
proof (induction assets arbitrary: st)
  case Nil
  show ?case by simp
next
  case (Cons a assets)
  obtain r st2 where x: "assetStep c env item iu cookies a (QueueCount_Incr (- 1) st) = (r, st2)"
    by (cases "assetStep c env item iu cookies a (QueueCount_Incr (- 1) st)")
  with assetStep_no_panic [OF assms, of c env cookies a "QueueCount_Incr (- 1) st"]
  have "r = Returns ()" by simp
  with x Cons.IH show ?case by simp
qed

lemma assetLoop_Cons:
  assumes "URL item = Some iu"
  shows "assetLoop c env item iu cookies (a # assets) st =
         assetLoop c env item iu cookies assets
           (snd (assetStep c env item iu cookies a (QueueCount_Incr (- 1) st)))"
proof -
  obtain r st2 where x: "assetStep c env item iu cookies a (QueueCount_Incr (- 1) st) = (r, st2)"
    by (cases "assetStep c env item iu cookies a (QueueCount_Incr (- 1) st)")
  with assetStep_no_panic [OF assms, of c env cookies a "QueueCount_Incr (- 1) st"]
  have "r = Returns ()" by simp
  with x show ?thesis by simp
qed

lemma assetLoop_append:
  assumes "URL item = Some iu"
  shows "assetLoop c env item iu cookies (xs @ ys) st =
         assetLoop c env item iu cookies ys (snd (assetLoop c env item iu cookies xs st))"
  by (induction xs arbitrary: st) (simp_all add: assetLoop_Cons [OF assms] del: assetLoop.simps(2))

lemma assetLoop_QueueCount:
  assumes "URL item = Some iu"
  shows "QueueCount (snd (assetLoop c env item iu cookies assets st)) =
         QueueCount st - int (length assets)"
  by (induction assets arbitrary: st) (simp_all add: assetLoop_Cons [OF assms] del: assetLoop.simps(2))

lemma assetLoop_events:
  assumes "URL item = Some iu"
  shows "\<exists>new. events (snd (assetLoop c env item iu cookies assets st)) = events st @ new
     \<and> filter isParseEvent new = []"
proof (induction assets arbitrary: st)
  case Nil
  show ?case by simp
next
  case (Cons a assets)
  let ?st1 = "snd (assetStep c env item iu cookies a (QueueCount_Incr (- 1) st))"
  from assetStep_events [of c env item iu cookies a "QueueCount_Incr (- 1) st"]
  obtain n1 where n1: "events ?st1 = events st @ n1" "filter isParseEvent n1 = []" by auto
  from Cons.IH [of ?st1]
  obtain n2 where n2: "events (snd (assetLoop c env item iu cookies assets ?st1)) = events ?st1 @ n2"
     "filter isParseEvent n2 = []" by auto
  show ?case
    using n1 n2 by (intro exI [of _ "n1 @ n2"]) (simp add: assetLoop_Cons [OF assms] del: assetLoop.simps(2))
qed

lemma fetches_emit [simp]: "fetches (emit e st) = fetches st"
  by (simp add: emit_def)

lemma fetches_Seen [simp]: "fetches (Seen h t st) = fetches st"
  by (simp add: Seen_def)

lemma fetches_QueueCount_Incr [simp]: "fetches (QueueCount_Incr n st) = fetches st"
  by (simp add: QueueCount_Incr_def)

lemma executeGET_extends:
  "executeGET c env item req fs = (r, q, fs') \<Longrightarrow>
     \<exists>more. fs' = fs @ \<lparr>fetch_item = item, fetch_proxied = viaProxy c env req, fetch_req = req\<rparr> # more"
  using executeGET_fetches [of c env item req fs] by auto

lemma captureAsset_fetches:
  "\<exists>more. fetches (snd (captureAsset c env item cookies st)) = fetches st @ more"
  unfolding captureAsset_def Let_def
  by (auto simp: logCrawlSuccess_def dest!: executeGET_extends
        split: option.split sum.split outcome.split prod.split)

lemma assetStep_fetches:
  "\<exists>more. fetches (snd (assetStep c env item iu cookies asset st)) = fetches st @ more"
proof -
  obtain r st2 where x: "captureAsset c env (NewItem env asset (Some item) ''asset'' (Hop item)) cookies st = (r, st2)"
    by (cases "captureAsset c env (NewItem env asset (Some item) ''asset'' (Hop item)) cookies st")
  from captureAsset_fetches [of c env "NewItem env asset (Some item) ''asset'' (Hop item)" cookies st] x
  obtain more where "fetches st2 = fetches st @ more" by auto
  then show ?thesis
    using x by (auto simp: assetStep_def split: outcome.split option.split)
qed

lemma assetLoop_fetches:
  assumes "URL item = Some iu"
  shows "\<exists>more. fetches (snd (assetLoop c env item iu cookies assets st)) = fetches st @ more"
proof (induction assets arbitrary: st)
  case Nil
  show ?case by simp
next
  case (Cons a assets)
  let ?st1 = "snd (assetStep c env item iu cookies a (QueueCount_Incr (- 1) st))"
  from assetStep_fetches [of c env item iu cookies a "QueueCount_Incr (- 1) st"]
  obtain n1 where n1: "fetches ?st1 = fetches st @ n1" by auto
  from Cons.IH [of ?st1]
  obtain n2 where n2: "fetches (snd (assetLoop c env item iu cookies assets ?st1)) = fetches ?st1 @ n2"
    by auto
  show ?case
    using n1 n2 by (intro exI [of _ "n1 @ n2"]) (simp add: assetLoop_Cons [OF assms] del: assetLoop.simps(2))
qed

lemma outlink_is_parse: "isOutlinkEvent e \<Longrightarrow> isParseEvent e"
  by (cases e) simp_all

lemma no_parse_no_outlink: "filter isParseEvent xs = [] \<Longrightarrow> filter isOutlinkEvent xs = []"
  by (auto simp: filter_empty_conv dest: outlink_is_parse)

text \<open>What the code does with the content type: without \<open>text/\<close> anywhere in it, nothing is parsed.\<close>

lemma scrape_not_text:
  "Contains (Header_Get (resp_Header resp) ''Content-Type'') ''text/'' = False \<Longrightarrow>
     scrape c env item iu resp st = (Returns (), st)"
  by (simp add: scrape_def)

lemma scrape_frame:
  assumes "URL item = Some iu"
  shows "QueueCount (snd (scrape c env item iu resp st)) = QueueCount st
     \<and> (\<exists>more. fetches (snd (scrape c env item iu resp st)) = fetches st @ more)
     \<and> (\<exists>new. events (snd (scrape c env item iu resp st)) = events st @ new
           \<and> (MaxHops c \<le> Hop item \<longrightarrow> filter isOutlinkEvent new = []))"
proof -
  have loop: "QueueCount (snd (assetLoop c env item iu ck assets (QueueCount_Incr (int (length assets)) s))) = QueueCount s
      \<and> (\<exists>more. fetches (snd (assetLoop c env item iu ck assets (QueueCount_Incr (int (length assets)) s))) = fetches s @ more)
      \<and> (\<exists>new. events (snd (assetLoop c env item iu ck assets (QueueCount_Incr (int (length assets)) s))) = events s @ new
             \<and> filter isOutlinkEvent new = [])" for ck assets s
    using assetLoop_QueueCount [OF assms, of c env ck assets "QueueCount_Incr (int (length assets)) s"]
      assetLoop_fetches [OF assms, of c env ck assets "QueueCount_Incr (int (length assets)) s"]
      assetLoop_events [OF assms, of c env ck assets "QueueCount_Incr (int (length assets)) s"]
    by (auto dest: no_parse_no_outlink)
  show ?thesis
  proof (cases "Contains (Header_Get (resp_Header resp) ''Content-Type'') ''text/''")
    case False
    then show ?thesis by (simp add: scrape_def)
  next
    case True
    show ?thesis
    proof (cases "url_Parse env (url_String env (req_URL (resp_Request resp)))")
      case (Inl err)
      with True show ?thesis by (simp add: scrape_def)
    next
      case (Inr base)
      show ?thesis
      proof (cases "NewDocumentFromResponse env resp")
        case (Inl err)
        with True Inr show ?thesis by (simp add: scrape_def)
      next
        case doc: (Inr doc)
        show ?thesis
        proof (cases "extractAssets env base doc")
          case (Inl err)
          with True Inr doc show ?thesis
            by (simp add: scrape_def split: sum.split) (auto simp: not_le)
        next
          case assets: (Inr assets)
          show ?thesis
          proof (cases "Hop item < MaxHops c")
            case False
            let ?s = "emit Call_extractAssets (emit Call_NewDocumentFromResponse st)"
            from loop [of "resp_Cookies env (resp_Header resp)" assets ?s]
            show ?thesis
              using True Inr doc assets False by (auto simp: scrape_def)
          next
            case hop: True
            show ?thesis
            proof (cases "extractOutlinks env base doc")
              case (Inl err)
              with True Inr doc assets hop show ?thesis by (simp add: scrape_def)
            next
              case out: (Inr outlinks)
              let ?s = "emit Call_extractAssets (emit (Go_queueOutlinks outlinks item)
                          (emit Call_extractOutlinks (emit Call_NewDocumentFromResponse st)))"
              from loop [of "resp_Cookies env (resp_Header resp)" assets ?s]
              show ?thesis
                using True Inr doc assets hop out by (auto simp: scrape_def)
            qed
          qed
        qed
      qed
    qed
  qed
qed

lemma Capture_frame:
  "QueueCount (snd (Capture c env item st)) = QueueCount st
     \<and> (\<exists>more. fetches (snd (Capture c env item st)) = fetches st @ more)
     \<and> (\<exists>new. events (snd (Capture c env item st)) = events st @ new
           \<and> (MaxHops c \<le> Hop item \<longrightarrow> filter isOutlinkEvent new = []))"
proof (cases "URL item")
  case None
  then show ?thesis by (simp add: Capture_def)
next
  case (Some iu)
  have sc: "QueueCount (snd (scrape c env item iu resp (emit e (st\<lparr>fetches := fetches st @ m\<rparr>)))) = QueueCount st
     \<and> (\<exists>more. fetches (snd (scrape c env item iu resp (emit e (st\<lparr>fetches := fetches st @ m\<rparr>)))) = fetches st @ more)
     \<and> (\<exists>new. events (snd (scrape c env item iu resp (emit e (st\<lparr>fetches := fetches st @ m\<rparr>)))) = events st @ new
           \<and> (MaxHops c \<le> Hop item \<longrightarrow> filter isOutlinkEvent new = []))" if "\<not> isOutlinkEvent e" for resp e m
    using scrape_frame [OF Some, of c env resp "emit e (st\<lparr>fetches := fetches st @ m\<rparr>)"] that
    by auto
  show ?thesis
    unfolding Capture_def Let_def
    using Some sc
    by (auto simp: logCrawlSuccess_def dest!: executeGET_extends
          split: option.split sum.split outcome.split prod.split)
qed



text \<open>
  The asset loop, started after the increment by the number of assets: it goes
  through the first \<open>i\<close> assets, decrements, and runs the body for the asset of
  index \<open>i\<close> in a state where \<open>QueueCount\<close> is up by the number of assets minus
  \<open>i + 1\<close>; it does not panic and leaves \<open>QueueCount\<close> where it was before
  the increment.
\<close>

lemma assetLoop_balance:
  assumes "URL item = Some iu" and "i < length assets"
  shows "assetLoop c env item iu cookies assets (QueueCount_Incr (int (length assets)) st) =
           assetLoop c env item iu cookies (drop (Suc i) assets)
             (snd (assetStep c env item iu cookies (assets ! i)
                (QueueCount_Incr (- 1)
                   (snd (assetLoop c env item iu cookies (take i assets)
                           (QueueCount_Incr (int (length assets)) st))))))
     \<and> QueueCount (QueueCount_Incr (- 1)
                      (snd (assetLoop c env item iu cookies (take i assets)
                              (QueueCount_Incr (int (length assets)) st))))
         = QueueCount st + (int (length assets) - int (i + 1))
     \<and> fst (assetLoop c env item iu cookies assets (QueueCount_Incr (int (length assets)) st)) = Returns ()
     \<and> QueueCount (snd (assetLoop c env item iu cookies assets (QueueCount_Incr (int (length assets)) st)))
         = QueueCount st
     \<and> QueueCount (snd (Capture c env item st)) = QueueCount st"
proof -
  let ?st0 = "QueueCount_Incr (int (length assets)) st"
  have split: "assets = take i assets @ (assets ! i) # drop (Suc i) assets"
    using assms(2) by (rule id_take_nth_drop)
  have "assetLoop c env item iu cookies (take i assets @ (assets ! i) # drop (Suc i) assets) ?st0 =
           assetLoop c env item iu cookies (drop (Suc i) assets)
             (snd (assetStep c env item iu cookies (assets ! i)
                (QueueCount_Incr (- 1) (snd (assetLoop c env item iu cookies (take i assets) ?st0)))))"
    by (simp only: assetLoop_append [OF assms(1)] assetLoop_Cons [OF assms(1)])
  then have a: "assetLoop c env item iu cookies assets ?st0 =
           assetLoop c env item iu cookies (drop (Suc i) assets)
             (snd (assetStep c env item iu cookies (assets ! i)
                (QueueCount_Incr (- 1) (snd (assetLoop c env item iu cookies (take i assets) ?st0)))))"
    using split by simp
  have b: "QueueCount (QueueCount_Incr (- 1) (snd (assetLoop c env item iu cookies (take i assets) ?st0)))
         = QueueCount st + (int (length assets) - int (i + 1))"
    using assms(2) by (simp add: assetLoop_QueueCount [OF assms(1)])
  have d: "QueueCount (snd (assetLoop c env item iu cookies assets ?st0)) = QueueCount st"
    by (simp add: assetLoop_QueueCount [OF assms(1)])
  show ?thesis
    using a b d assetLoop_no_panic [OF assms(1), of c env cookies assets ?st0]
      Capture_frame [of c env item st]
    by blast
qed




text \<open>
  The guard at lines 115 to 121: when the request cannot be built, the capture logs a
  warning and returns; nothing is fetched.
\<close>

lemma Capture_request_not_built:
  "URL item = Some iu \<Longrightarrow> http_NewRequest env ''GET'' (url_String env iu) = Inl err \<Longrightarrow>
     Capture c env item st = (Returns (), emit (LogWarning err (url_String env iu)) st)"
  by (simp add: Capture_def)

text \<open>
  The path of \<open>Capture\<close> to its asset loop (lines 115 to 184): the request is built,
  the Referer is found, the fetch returns a response whose content type has \<open>text/\<close>
  in it, the base URL and the document parse, the outlinks (when the hop admits
  them) and the assets are extracted. Then \<open>Capture\<close> is the asset loop, run in the
  state after \<open>QueueCount.Incr(len(assets))\<close>, and until that increment the capture has
  left \<open>QueueCount\<close> alone.
\<close>

lemma Capture_reaches_assetLoop:
  assumes "URL item = Some iu"
    and "http_NewRequest env ''GET'' (url_String env iu) = Inr req"
    and "(if 0 < Hop item then
            (case ParentItem item of
               None \<Rightarrow> None
             | Some p \<Rightarrow>
                 (case URL p of
                    None \<Rightarrow> None
                  | Some pu \<Rightarrow>
                      Some (if 0 < length (url_String env pu) then url_String env pu
                            else url_Host env iu)))
          else Some (url_Host env iu)) = Some referer"
    and "executeGET c env item (req\<lparr>req_Header := Header_Set (req_Header req) ''Referer'' referer\<rparr>)
           (fetches st) = (Returns (Some resp, None), q, fs)"
    and "Contains (Header_Get (resp_Header resp) ''Content-Type'') ''text/''"
    and "url_Parse env (url_String env (req_URL (resp_Request resp))) = Inr base"
    and "NewDocumentFromResponse env resp = Inr doc"
    and "MaxHops c \<le> Hop item \<or> extractOutlinks env base doc = Inr outlinks"
    and "extractAssets env base doc = Inr assets"
  shows "\<exists>st1. QueueCount st1 = QueueCount st \<and> fetches st1 = fs
           \<and> Capture c env item st =
               assetLoop c env item iu (resp_Cookies env (resp_Header resp)) assets
                 (QueueCount_Incr (int (length assets)) st1)"
proof (cases "Hop item < MaxHops c")
  case True
  with assms(8) have out: "extractOutlinks env base doc = Inr outlinks" by auto
  show ?thesis
    using assms(1-7,9) True out
    by (intro exI [of _ "emit Call_extractAssets (emit (Go_queueOutlinks outlinks item)
          (emit Call_extractOutlinks (emit Call_NewDocumentFromResponse
            (emit (LogSuccess (QueueCount st) (Crawled st) (resp_StatusCode resp)
                     (ActiveWorkers st) (Hop item) (Type item) (url_String env iu))
               (st\<lparr>fetches := fs\<rparr>)))))"])
       (simp add: Capture_def scrape_def logCrawlSuccess_def)
next
  case False
  show ?thesis
    using assms(1-7,9) False
    by (intro exI [of _ "emit Call_extractAssets (emit Call_NewDocumentFromResponse
            (emit (LogSuccess (QueueCount st) (Crawled st) (resp_StatusCode resp)
                     (ActiveWorkers st) (Hop item) (Type item) (url_String env iu))
               (st\<lparr>fetches := fs\<rparr>)))"])
       (simp add: Capture_def scrape_def logCrawlSuccess_def)
qed

text \<open>
  Claim C9. On the path of \<open>Capture\<close> to its asset loop, with the assets \<open>assets\<close>:
  \<open>Capture\<close> increments \<open>QueueCount\<close> by their number, from the value it had before
  the capture, and runs the loop. For every \<open>i\<close> below that number, the loop goes
  through the first \<open>i\<close> assets, decrements, and then runs the body \<open>assetStep\<close> for
  the asset of index \<open>i\<close> (the \<open>i + 1\<close>-th), skipped or not; in the state in which that
  body runs \<open>QueueCount\<close> is its value before the capture plus the number of assets
  minus \<open>i + 1\<close>. The capture does not panic, and after it \<open>QueueCount\<close> is back at
  the value it had before.
\<close>

theorem Capture_asset_QueueCount:
  assumes "URL item = Some iu"
    and "http_NewRequest env ''GET'' (url_String env iu) = Inr req"
    and "(if 0 < Hop item then
            (case ParentItem item of
               None \<Rightarrow> None
             | Some p \<Rightarrow>
                 (case URL p of
                    None \<Rightarrow> None
                  | Some pu \<Rightarrow>
                      Some (if 0 < length (url_String env pu) then url_String env pu
                            else url_Host env iu)))
          else Some (url_Host env iu)) = Some referer"
    and "executeGET c env item (req\<lparr>req_Header := Header_Set (req_Header req) ''Referer'' referer\<rparr>)
           (fetches st) = (Returns (Some resp, None), q, fs)"
    and "Contains (Header_Get (resp_Header resp) ''Content-Type'') ''text/''"
    and "url_Parse env (url_String env (req_URL (resp_Request resp))) = Inr base"
    and "NewDocumentFromResponse env resp = Inr doc"
    and "MaxHops c \<le> Hop item \<or> extractOutlinks env base doc = Inr outlinks"
    and "extractAssets env base doc = Inr assets"
    and "i < length assets"
  shows "\<exists>st1. QueueCount st1 = QueueCount st \<and> fetches st1 = fs
     \<and> Capture c env item st =
         assetLoop c env item iu (resp_Cookies env (resp_Header resp)) assets
           (QueueCount_Incr (int (length assets)) st1)
     \<and> QueueCount (QueueCount_Incr (int (length assets)) st1) = QueueCount st + int (length assets)
     \<and> assetLoop c env item iu (resp_Cookies env (resp_Header resp)) assets
           (QueueCount_Incr (int (length assets)) st1) =
         assetLoop c env item iu (resp_Cookies env (resp_Header resp)) (drop (Suc i) assets)
           (snd (assetStep c env item iu (resp_Cookies env (resp_Header resp)) (assets ! i)
              (QueueCount_Incr (- 1)
                 (snd (assetLoop c env item iu (resp_Cookies env (resp_Header resp)) (take i assets)
                         (QueueCount_Incr (int (length assets)) st1))))))
     \<and> QueueCount (QueueCount_Incr (- 1)
                      (snd (assetLoop c env item iu (resp_Cookies env (resp_Header resp)) (take i assets)
                              (QueueCount_Incr (int (length assets)) st1))))
         = QueueCount st + (int (length assets) - int (i + 1))
     \<and> fst (Capture c env item st) = Returns ()
     \<and> QueueCount (snd (Capture c env item st)) = QueueCount st"
proof -
  from Capture_reaches_assetLoop [OF assms(1-9)]
  obtain st1 where st1: "QueueCount st1 = QueueCount st" "fetches st1 = fs"
    "Capture c env item st =
       assetLoop c env item iu (resp_Cookies env (resp_Header resp)) assets
         (QueueCount_Incr (int (length assets)) st1)"
    by blast
  note b = assetLoop_balance [OF assms(1) assms(10), of c env "resp_Cookies env (resp_Header resp)" st1]
  note b1 = b [THEN conjunct1]
  note b2 = b [THEN conjunct2, THEN conjunct1]
  note b3 = b [THEN conjunct2, THEN conjunct2, THEN conjunct1]
  note b4 = b [THEN conjunct2, THEN conjunct2, THEN conjunct2, THEN conjunct1]
  have e: "QueueCount (QueueCount_Incr (int (length assets)) st1) = QueueCount st + int (length assets)"
    by (simp add: QueueCount_Incr_def st1(1))
  have r: "fst (Capture c env item st) = Returns ()"
    by (simp only: st1(3) b3)
  have z: "QueueCount (snd (Capture c env item st)) = QueueCount st"
    by (simp only: st1(3) b4 st1(1))
  have p: "QueueCount (QueueCount_Incr (- 1)
                      (snd (assetLoop c env item iu (resp_Cookies env (resp_Header resp)) (take i assets)
                              (QueueCount_Incr (int (length assets)) st1))))
         = QueueCount st + (int (length assets) - int (i + 1))"
    by (simp only: b2 st1(1))
  show ?thesis
    by (intro exI [of _ st1] conjI) (rule st1(1) st1(2) st1(3) e b1 p r z)+
qed

text \<open>
  A page with two assets, the first the page itself: \<open>Capture\<close> runs the loop with
  the counter at 2, the body runs for the second asset with the counter at 0, and
  the counter ends at 0.
\<close>

theorem Capture_asset_QueueCount_witness:
  "fst (Capture (exampleCrawl (redirectOnce ''text/html'')) exampleEnv (seedItem ''http://b/'' 0) emptyState)
     = Returns ()
   \<and> QueueCount (snd (Capture (exampleCrawl (redirectOnce ''text/html'')) exampleEnv
                         (seedItem ''http://b/'' 0) emptyState)) = 0
   \<and> (\<exists>st1. QueueCount st1 = 0
        \<and> Capture (exampleCrawl (redirectOnce ''text/html'')) exampleEnv (seedItem ''http://b/'' 0) emptyState
            = assetLoop (exampleCrawl (redirectOnce ''text/html'')) exampleEnv (seedItem ''http://b/'' 0)
                ''http://b/'' [] [''http://b/'', ''http://a/img.png''] (QueueCount_Incr 2 st1)
        \<and> QueueCount (QueueCount_Incr 2 st1) = 2
        \<and> QueueCount (QueueCount_Incr (- 1)
             (snd (assetLoop (exampleCrawl (redirectOnce ''text/html'')) exampleEnv (seedItem ''http://b/'' 0)
                     ''http://b/'' [] (take 1 [''http://b/'', ''http://a/img.png''])
                     (QueueCount_Incr 2 st1)))) = 0)"
proof -
  define c where "c = exampleCrawl (redirectOnce ''text/html'')"
  define item where "item = seedItem ''http://b/'' 0"
  define req where "req = getRequest ''http://b/''"
  define req' where "req' = \<lparr>req_Method = ''GET'', req_URL = ''http://b/'',
                              req_Header = [(''referer'', ''http://b/'')]\<rparr>"
  define resp where "resp = page ''text/html'' req'"
  define assets where "assets = [''http://b/'', ''http://a/img.png'']"
  have 1: "URL item = Some ''http://b/''"
    by (simp add: item_def seedItem_def)
  have 2: "http_NewRequest exampleEnv ''GET'' (url_String exampleEnv ''http://b/'') = Inr req"
    by (simp add: http_NewRequest_def exampleEnv_def getRequest_def req_def)
  have 3: "(if 0 < Hop item then
            (case ParentItem item of
               None \<Rightarrow> None
             | Some p \<Rightarrow>
                 (case URL p of
                    None \<Rightarrow> None
                  | Some pu \<Rightarrow>
                      Some (if 0 < length (url_String exampleEnv pu) then url_String exampleEnv pu
                            else url_Host exampleEnv ''http://b/'')))
          else Some (url_Host exampleEnv ''http://b/'')) = Some ''http://b/''"
    by (simp add: item_def seedItem_def NewItem_def exampleEnv_def)
  have 4: "executeGET c exampleEnv item
             (req\<lparr>req_Header := Header_Set (req_Header req) ''Referer'' ''http://b/''\<rparr>)
             (fetches emptyState)
           = (Returns (Some resp, None), req',
              [\<lparr>fetch_item = item, fetch_proxied = False, fetch_req = req'\<rparr>])"
    unfolding c_def item_def req_def req'_def resp_def by code_simp
  have 5: "Contains (Header_Get (resp_Header resp) ''Content-Type'') ''text/''"
    unfolding resp_def req'_def by code_simp
  have 6: "url_Parse exampleEnv (url_String exampleEnv (req_URL (resp_Request resp))) = Inr ''http://b/''"
    by (simp add: resp_def req'_def page_def exampleEnv_def)
  have 7: "NewDocumentFromResponse exampleEnv resp = Inr ()"
    by (simp add: exampleEnv_def)
  have 8: "MaxHops c \<le> Hop item \<or> extractOutlinks exampleEnv ''http://b/'' () = Inr [''http://out/'']"
    by (simp add: exampleEnv_def)
  have 9: "extractAssets exampleEnv ''http://b/'' () = Inr assets"
    by (simp add: exampleEnv_def assets_def)
  have 10: "1 < length assets"
    by (simp add: assets_def)
  have k: "resp_Cookies exampleEnv (resp_Header resp) = []"
    by (simp add: exampleEnv_def)
  have l: "int (length assets) = 2" "QueueCount emptyState = 0"
    by (simp_all add: assets_def emptyState_def)
  from Capture_asset_QueueCount [OF 1 2 3 4 5 6 7 8 9 10]
  obtain st1 where st1: "QueueCount st1 = QueueCount emptyState"
    "Capture c exampleEnv item emptyState =
       assetLoop c exampleEnv item ''http://b/'' (resp_Cookies exampleEnv (resp_Header resp)) assets
         (QueueCount_Incr (int (length assets)) st1)"
    "QueueCount (QueueCount_Incr (int (length assets)) st1) = QueueCount emptyState + int (length assets)"
    "QueueCount (QueueCount_Incr (- 1)
        (snd (assetLoop c exampleEnv item ''http://b/'' (resp_Cookies exampleEnv (resp_Header resp))
                (take 1 assets) (QueueCount_Incr (int (length assets)) st1))))
       = QueueCount emptyState + (int (length assets) - int (1 + 1))"
    "fst (Capture c exampleEnv item emptyState) = Returns ()"
    "QueueCount (snd (Capture c exampleEnv item emptyState)) = QueueCount emptyState"
    by blast
  have "\<exists>st1. QueueCount st1 = 0
        \<and> Capture c exampleEnv item emptyState
            = assetLoop c exampleEnv item ''http://b/'' [] assets (QueueCount_Incr 2 st1)
        \<and> QueueCount (QueueCount_Incr 2 st1) = 2
        \<and> QueueCount (QueueCount_Incr (- 1)
             (snd (assetLoop c exampleEnv item ''http://b/'' [] (take 1 assets)
                     (QueueCount_Incr 2 st1)))) = 0"
    using st1(1-4) by (intro exI [of _ st1]) (simp add: k l)
  with st1(5,6) l(2) show ?thesis
    unfolding c_def item_def assets_def by simp
qed

lemma note_not_text_prefix: "HasPrefix ''application/x-note; profile=text/plain'' ''text/'' = False"
  by code_simp

lemma note_events:
  "events (snd (Capture (exampleCrawl (redirectOnce ''application/x-note; profile=text/plain''))
                  exampleEnv (seedItem ''http://b/'' 0) emptyState))
   = [LogSuccess 0 0 200 1 0 ''seed'' ''http://b/'',
      Call_NewDocumentFromResponse, Call_extractOutlinks,
      Go_queueOutlinks [''http://out/''] (seedItem ''http://b/'' 0),
      Call_extractAssets,
      LogSuccess 0 0 200 1 0 ''asset'' ''http://a/img.png'']"
  by code_simp

lemma note_fetches:
  "map (\<lambda>f. req_URL (fetch_req f))
     (fetches (snd (Capture (exampleCrawl (redirectOnce ''application/x-note; profile=text/plain''))
                      exampleEnv (seedItem ''http://b/'' 0) emptyState)))
   = [''http://b/'', ''http://a/img.png'']"
  by code_simp

text \<open>
  Claim C4, on the code. The content type \<open>application/x-note; profile=text/plain\<close>
  does not begin with \<open>text/\<close>, yet the capture of a page served with it goes on after
  the success line: the body is parsed, the outlinks are handed to \<open>queueOutlinks\<close> and
  an asset is fetched. The code tests \<open>strings.Contains\<close>, not the prefix, though its
  own comment says the response must be a \<open>text/*\<close>.
\<close>

theorem Capture_parses_content_type_containing_text:
  "HasPrefix ''application/x-note; profile=text/plain'' ''text/'' = False
   \<and> events (snd (Capture (exampleCrawl (redirectOnce ''application/x-note; profile=text/plain''))
                  exampleEnv (seedItem ''http://b/'' 0) emptyState))
     = [LogSuccess 0 0 200 1 0 ''seed'' ''http://b/'',
        Call_NewDocumentFromResponse, Call_extractOutlinks,
        Go_queueOutlinks [''http://out/''] (seedItem ''http://b/'' 0),
        Call_extractAssets,
        LogSuccess 0 0 200 1 0 ''asset'' ''http://a/img.png'']
   \<and> map (\<lambda>f. req_URL (fetch_req f))
       (fetches (snd (Capture (exampleCrawl (redirectOnce ''application/x-note; profile=text/plain''))
                        exampleEnv (seedItem ''http://b/'' 0) emptyState)))
     = [''http://b/'', ''http://a/img.png'']"
  using note_not_text_prefix note_events note_fetches by simp

end
